theory Spec2Isabelle
  imports Complex_Main
begin

section \<open>Vector primitives of \<open>NeuralEmbedding\<close>\<close>

text \<open>
  The embeddings of \<open>server_advanced.py\<close> are Python lists of floats, turned into
  one-dimensional numpy arrays for arithmetic. They are modelled as lists of reals:
  arithmetic on floats is exact, so rounding, infinities and NaN are outside the
  model. Python integers are unbounded; where the code divides two of them the
  quotient must fit a float, and \<open>OverflowError\<close> is raised when it does not.
  Everything a numpy or Python call can raise is a value of \<open>error\<close>.
\<close>

datatype error = ValueError | TypeError | AttributeError | OverflowError | ZeroDivisionError

text \<open>\<open>np.linalg.norm\<close> and \<open>np.dot\<close> on one-dimensional arrays.\<close>

definition linalg_norm :: "real list \<Rightarrow> real" where
  "linalg_norm a = sqrt (sum_list (map (\<lambda>x. x * x) a))"

definition np_dot :: "real list \<Rightarrow> real list \<Rightarrow> real" where
  "np_dot a b = sum_list (map2 (*) a b)"

text \<open>
  Element-wise arithmetic on two one-dimensional arrays: equal shapes combine
  point-wise, a one-element array is broadcast against the other, any other pair of
  shapes raises \<open>ValueError\<close>.
\<close>

definition broadcast2 :: "(real \<Rightarrow> real \<Rightarrow> real) \<Rightarrow> real list \<Rightarrow> real list \<Rightarrow> error + real list" where
  "broadcast2 f a b =
     (if length a = length b then Inr (map2 f a b)
      else if length a = 1 then Inr (map (f (hd a)) b)
      else if length b = 1 then Inr (map (\<lambda>x. f x (hd b)) a)
      else Inl ValueError)"

text \<open>
  \<open>similarity\<close>: both norms are taken first and a zero norm returns \<open>0.0\<close> before
  \<open>np.dot\<close> is reached; \<open>np.dot\<close> raises on arrays of different lengths.
\<close>

definition similarity :: "real list \<Rightarrow> real list \<Rightarrow> error + real" where
  "similarity emb1 emb2 =
     (let norm_a = linalg_norm emb1; norm_b = linalg_norm emb2 in
      if norm_a = 0 \<or> norm_b = 0 then Inr 0
      else if length emb1 \<noteq> length emb2 then Inl ValueError
      else Inr (np_dot emb1 emb2 / (norm_a * norm_b)))"

text \<open>
  \<open>update_embedding\<close>: \<open>updated = current + lr * weight * (target - current)\<close>, then
  division by the norm when the norm exceeds 1.
\<close>

definition update_embedding :: "real list \<Rightarrow> real list \<Rightarrow> real \<Rightarrow> real \<Rightarrow> error + real list" where
  "update_embedding current target weight lr =
     (case broadcast2 (-) target current of
        Inl e \<Rightarrow> Inl e
      | Inr diff \<Rightarrow>
          (case broadcast2 (+) current (map (\<lambda>d. lr * weight * d) diff) of
             Inl e \<Rightarrow> Inl e
           | Inr updated \<Rightarrow>
               (let norm = linalg_norm updated in
                Inr (if norm > 1 then map (\<lambda>x. x / norm) updated else updated))))"

section \<open>Python values and content records\<close>

text \<open>
  A content record is a Python dict read from the external store. Its values are
  modelled by \<open>pyval\<close>: \<open>None\<close>, booleans, integers (the store's integral numbers)
  and ASCII strings; non-integral numbers and containers are outside the model.
  \<open>d.get(k, default)\<close> is \<open>py_get\<close>, \<open>a or b\<close> is \<open>py_or\<close>.
\<close>

datatype pyval = PNone | PBool bool | PInt int | PStr string

type_synonym content = "string \<rightharpoonup> pyval"

fun truthy :: "pyval \<Rightarrow> bool" where
  "truthy PNone = False"
| "truthy (PBool b) = b"
| "truthy (PInt i) = (i \<noteq> 0)"
| "truthy (PStr s) = (s \<noteq> [])"

definition py_or :: "pyval \<Rightarrow> pyval \<Rightarrow> pyval" where
  "py_or a b = (if truthy a then a else b)"

definition py_get :: "content \<Rightarrow> string \<Rightarrow> pyval \<Rightarrow> pyval" where
  "py_get d k dflt = (case d k of None \<Rightarrow> dflt | Some v \<Rightarrow> v)"

text \<open>
  \<open>int(s)\<close> on a string: surrounding whitespace (the characters 9 to 13 and the
  space) is stripped, one sign is allowed, then decimal digits with single underscores
  between digits; anything else raises \<open>ValueError\<close>, and so does a string of more
  than 4300 digits (the interpreter's default limit on integer string conversion).
\<close>

definition is_space :: "char \<Rightarrow> bool" where
  "is_space c = (let n = (of_char c :: nat) in (9 \<le> n \<and> n \<le> 13) \<or> n = 32)"

definition is_digit :: "char \<Rightarrow> bool" where
  "is_digit c = (let n = (of_char c :: nat) in 48 \<le> n \<and> n \<le> 57)"

definition digit_val :: "char \<Rightarrow> nat" where
  "digit_val c = of_char c - 48"

fun digits_acc :: "nat \<Rightarrow> string \<Rightarrow> nat option" where
  "digits_acc n [] = Some n"
| "digits_acc n (c # cs) =
     (if is_digit c then digits_acc (10 * n + digit_val c) cs
      else if c = CHR ''_'' then
        (case cs of
           [] \<Rightarrow> None
         | d # ds \<Rightarrow> if is_digit d then digits_acc (10 * n + digit_val d) ds else None)
      else None)"

definition nat_of_digits :: "string \<Rightarrow> nat option" where
  "nat_of_digits s =
     (case s of [] \<Rightarrow> None | c # cs \<Rightarrow> if is_digit c then digits_acc (digit_val c) cs else None)"

definition strip :: "string \<Rightarrow> string" where
  "strip s = rev (dropWhile is_space (rev (dropWhile is_space s)))"

definition MAX_STR_DIGITS :: nat where
  "MAX_STR_DIGITS = 4300"

definition int_of_string :: "string \<Rightarrow> int option" where
  "int_of_string s =
     (if MAX_STR_DIGITS < length (filter is_digit (strip s)) then None
      else
        (case strip s of
           [] \<Rightarrow> None
         | c # cs \<Rightarrow>
             if c = CHR ''-'' then map_option (\<lambda>n. - int n) (nat_of_digits cs)
             else if c = CHR ''+'' then map_option int (nat_of_digits cs)
             else map_option int (nat_of_digits (c # cs))))"

fun py_int :: "pyval \<Rightarrow> error + int" where
  "py_int PNone = Inl TypeError"
| "py_int (PBool b) = Inr (if b then 1 else 0)"
| "py_int (PInt i) = Inr i"
| "py_int (PStr s) = (case int_of_string s of None \<Rightarrow> Inl ValueError | Some i \<Rightarrow> Inr i)"

text \<open>\<open>str(v)\<close>, as an f-string formats a value into a cache key.\<close>

function show_nat :: "nat \<Rightarrow> string" where
  "show_nat n =
     (if n < 10 then [char_of (48 + n)]
      else show_nat (n div 10) @ [char_of (48 + n mod 10)])"
  by pat_completeness auto
termination
  by (relation "measure id") auto

definition show_int :: "int \<Rightarrow> string" where
  "show_int i = (if i < 0 then CHR ''-'' # show_nat (nat (- i)) else show_nat (nat i))"

fun py_str :: "pyval \<Rightarrow> string" where
  "py_str PNone = ''None''"
| "py_str (PBool b) = (if b then ''True'' else ''False'')"
| "py_str (PInt i) = show_int i"
| "py_str (PStr s) = s"

text \<open>Sequencing of computations that may raise: the first error wins.\<close>

definition rbind :: "error + 'a \<Rightarrow> ('a \<Rightarrow> error + 'b) \<Rightarrow> error + 'b" where
  "rbind m f = (case m of Inl e \<Rightarrow> Inl e | Inr x \<Rightarrow> f x)"

text \<open>
  \<open>a / b\<close> on two Python integers returns the quotient as a float, rounded to
  nearest. The largest float is \<open>2 ^ 1024 - 2 ^ 971\<close>; a quotient of magnitude
  \<open>2 ^ 1024 - 2 ^ 970\<close> or more would round beyond it and raises \<open>OverflowError\<close>
  (\<open>10 ** 400 / 1000\<close> does), and a zero divisor raises \<open>ZeroDivisionError\<close>. Below
  that bound the model returns the exact quotient.
\<close>

definition float_ok :: "int \<Rightarrow> int \<Rightarrow> bool" where
  "float_ok a b = (\<bar>real_of_int a / real_of_int b\<bar> < 2 ^ 1024 - 2 ^ 970)"

definition py_truediv :: "int \<Rightarrow> int \<Rightarrow> error + real" where
  "py_truediv a b =
     (if b = 0 then Inl ZeroDivisionError
      else if float_ok a b then Inr (real_of_int a / real_of_int b)
      else Inl OverflowError)"

text \<open>
  The counter expressions that \<open>create_content_embedding\<close> and \<open>score_content\<close> share:
  \<open>int(content.get('likes', 0) or content.get('likeCount', 0) or 0)\<close> and its siblings.
\<close>

definition get_likes :: "content \<Rightarrow> error + int" where
  "get_likes content =
     py_int (py_or (py_get content ''likes'' (PInt 0))
              (py_or (py_get content ''likeCount'' (PInt 0)) (PInt 0)))"

definition get_views :: "content \<Rightarrow> error + int" where
  "get_views content =
     py_int (py_or (py_get content ''viewCount'' (PInt 0))
              (py_or (py_get content ''views'' (PInt 0)) (PInt 1)))"

definition get_comments :: "content \<Rightarrow> error + int" where
  "get_comments content =
     py_int (py_or (py_get content ''commentsCount'' (PInt 0))
              (py_or (py_get content ''commentCount'' (PInt 0)) (PInt 0)))"

definition get_shares :: "content \<Rightarrow> error + int" where
  "get_shares content = py_int (py_or (py_get content ''shares'' (PInt 0)) (PInt 0))"

section \<open>Library functions\<close>

text \<open>
  What the code takes from numpy, datetime and hashlib is a parameter of the model:
  the two draws of the process-wide generator \<open>np.random\<close> (a standard normal sample
  and a uniform sample of \<open>[0, 1)\<close>, each returning the generator's next state),
  \<open>datetime.fromisoformat\<close> (\<open>None\<close> where it raises) and the MD5 digest of a string read
  as an integer. A parsed timestamp carries the instant it denotes, in seconds on the
  clock that \<open>datetime.now\<close> reads, its hour of day and its weekday.
\<close>

record created =
  epoch_seconds :: real
  dt_hour :: nat
  dt_weekday :: nat

record 'g pylib =
  np_randn :: "'g \<Rightarrow> real \<times> 'g"
  np_random :: "'g \<Rightarrow> real \<times> 'g"
  fromisoformat :: "string \<Rightarrow> created option"
  md5_int :: "string \<Rightarrow> nat"

definition EMBEDDING_DIM :: nat where
  "EMBEDDING_DIM = 64"

text \<open>\<open>np.random.randn(n)\<close>: \<open>n\<close> successive normal draws.\<close>

fun randn_vec :: "('g \<Rightarrow> real \<times> 'g) \<Rightarrow> nat \<Rightarrow> 'g \<Rightarrow> real list \<times> 'g" where
  "randn_vec draw 0 g = ([], g)"
| "randn_vec draw (Suc n) g =
     (let (x, g1) = draw g; (xs, g2) = randn_vec draw n g1 in (x # xs, g2))"

definition create_random_embedding :: "'g pylib \<Rightarrow> 'g \<Rightarrow> real list \<times> 'g" where
  "create_random_embedding L g =
     (let (xs, g') = randn_vec (np_randn L) EMBEDDING_DIM g
      in (map (\<lambda>x. x * sqrt (2 / real EMBEDDING_DIM)) xs, g'))"

text \<open>
  The \<open>try\<close> block of both timestamp readers: \<open>created_at.replace('Z', '+00:00')\<close> fails
  on a value that is not a string, \<open>fromisoformat\<close> on a string it cannot parse, and the
  bare \<open>except\<close> swallows either.
\<close>

definition replace_Z :: "string \<Rightarrow> string" where
  "replace_Z s = concat (map (\<lambda>c. if c = CHR ''Z'' then ''+00:00'' else [c]) s)"

definition parse_created :: "'g pylib \<Rightarrow> pyval \<Rightarrow> created option" where
  "parse_created L created_at =
     (case created_at of PStr s \<Rightarrow> fromisoformat L (replace_Z s) | _ \<Rightarrow> None)"

definition hours_old :: "real \<Rightarrow> created \<Rightarrow> real" where
  "hours_old now created_dt = (now - epoch_seconds created_dt) / 3600"

definition hash_fill :: "nat \<Rightarrow> real list \<Rightarrow> real list" where
  "hash_fill hash_val embedding =
     fold (\<lambda>i e. e[i := real ((hash_val div 2 ^ (i - 30)) mod 256) / 255])
       [30..<EMBEDDING_DIM] embedding"

definition create_content_embedding :: "'g pylib \<Rightarrow> real \<Rightarrow> content \<Rightarrow> error + real list" where
  "create_content_embedding L now content =
     rbind (get_likes content) (\<lambda>likes.
     rbind (get_views content) (\<lambda>views.
     rbind (get_comments content) (\<lambda>comments.
     rbind (get_shares content) (\<lambda>shares.
     rbind (py_truediv likes 1000) (\<lambda>likes_q.
     rbind (py_truediv views 10000) (\<lambda>views_q.
     rbind (py_truediv comments 100) (\<lambda>comments_q.
     rbind (py_truediv shares 50) (\<lambda>shares_q.
     rbind (py_truediv (likes + comments * 2 + shares * 3) (max views 1)) (\<lambda>engagement_rate.
       let embedding = (replicate EMBEDDING_DIM 0)
             [0 := min likes_q 1,
              1 := min views_q 1,
              2 := min comments_q 1,
              3 := min shares_q 1,
              4 := engagement_rate];
           created_at = py_get content ''createdAt'' (PStr []);
           embedding =
             (if truthy created_at then
                (case parse_created L created_at of
                   None \<Rightarrow> embedding
                 | Some created_dt \<Rightarrow>
                     embedding[5 := max 0 (1 - hours_old now created_dt / 168),
                               6 := real (dt_hour created_dt) / 24,
                               7 := real (dt_weekday created_dt) / 7])
              else embedding);
           content_type = py_get content ''mediaType'' (PStr ''text'');
           embedding =
             (if content_type = PStr ''video'' then embedding[10 := 1, 11 := 0, 12 := 0, 13 := 0, 14 := 0]
              else if content_type = PStr ''image'' then embedding[10 := 0, 11 := 1, 12 := 0, 13 := 0, 14 := 0]
              else embedding[10 := 0, 11 := 0, 12 := 1, 13 := 0, 14 := 0]);
           content_id = py_or (py_get content ''postId'' PNone)
                          (py_or (py_get content ''videoId'' PNone) (PStr []))
       in if truthy content_id then
            (case content_id of
               PStr s \<Rightarrow> Inr (hash_fill (md5_int L s) embedding)
             | _ \<Rightarrow> Inl AttributeError)
          else Inr embedding)))))))))"

section \<open>The server state\<close>

text \<open>
  \<open>AdvancedDynamoDBClient\<close> holds a cache (\<open>_cache\<close> with \<open>_cache_times\<close>) in front of
  the external store. The two dictionaries are written together at every site and
  nothing is ever deleted, so an entry is a pair of payload and insertion time. Keys are
  \<open>"<namespace>:<key>"\<close> with five distinct namespaces, so the cache is one map per
  namespace, keyed by what follows the colon.

  Content records are mutable dicts that the cache, the candidate lists and the
  scoring loop share by reference: they live in \<open>heap\<close>, and lists of records are
  lists of addresses. A scan of the external store builds fresh dicts.

  The external store is its tables and \<open>db_fails\<close>, the requests that raise at the
  moment (an unavailable store, a missing table, a rejected key). The wall clock is
  \<open>clock\<close>, in seconds; an operation reads it as one instant.
\<close>

datatype table = USER_EMBEDDINGS | CONTENT_EMBEDDINGS | POSTS | OTT_VIDEOS | FOLLOWS

datatype request = GetItem table pyval | PutItem table pyval | Scan table | Query table string

record 'g server =
  clock :: real
  cache_ttl :: real
  rng :: 'g
  heap :: "nat \<Rightarrow> content"
  next_addr :: nat
  cache_user_emb :: "string \<rightharpoonup> real list \<times> real"
  cache_content_emb :: "string \<rightharpoonup> real list \<times> real"
  cache_posts :: "(nat list \<times> real) option"
  cache_videos :: "(nat list \<times> real) option"
  cache_follows :: "string \<rightharpoonup> string list \<times> real"
  db_fails :: "request \<Rightarrow> bool"
  db_user_embeddings :: "string \<rightharpoonup> real list"
  db_content_embeddings :: "pyval \<rightharpoonup> real list"
  db_posts :: "content list"
  db_videos :: "content list"
  db_follows :: "string \<Rightarrow> string list"
  request_count :: nat

text \<open>\<open>_is_cached(key)\<close> followed by \<open>_cache[key]\<close>.\<close>

definition cache_read :: "'g server \<Rightarrow> ('a \<times> real) option \<Rightarrow> 'a option" where
  "cache_read st entry =
     (case entry of
        None \<Rightarrow> None
      | Some (payload, t) \<Rightarrow> if clock st - t < cache_ttl st then Some payload else None)"

subsection \<open>User and content embeddings\<close>

text \<open>
  \<open>save_user_embedding\<close> and \<open>save_content_embedding\<close>: \<open>put_item\<close> and the cache
  update sit in one \<open>try\<close> block, the cache update second; the \<open>except\<close> branch prints.
\<close>

definition save_user_embedding :: "'g server \<Rightarrow> string \<Rightarrow> real list \<Rightarrow> 'g server" where
  "save_user_embedding st user_id embedding =
     (if db_fails st (PutItem USER_EMBEDDINGS (PStr user_id)) then st
      else st\<lparr>db_user_embeddings := (db_user_embeddings st)(user_id \<mapsto> embedding),
               cache_user_emb := (cache_user_emb st)(user_id \<mapsto> (embedding, clock st))\<rparr>)"

definition get_user_embedding :: "'g pylib \<Rightarrow> 'g server \<Rightarrow> string \<Rightarrow> real list \<times> 'g server" where
  "get_user_embedding L st user_id =
     (case cache_read st (cache_user_emb st user_id) of
        Some embedding \<Rightarrow> (embedding, st)
      | None \<Rightarrow>
          (case (if db_fails st (GetItem USER_EMBEDDINGS (PStr user_id)) then None
                 else db_user_embeddings st user_id) of
             Some embedding \<Rightarrow>
               (embedding,
                st\<lparr>cache_user_emb := (cache_user_emb st)(user_id \<mapsto> (embedding, clock st))\<rparr>)
           | None \<Rightarrow>
               (let (embedding, g') = create_random_embedding L (rng st)
                in (embedding, save_user_embedding (st\<lparr>rng := g'\<rparr>) user_id embedding))))"

definition save_content_embedding :: "'g server \<Rightarrow> pyval \<Rightarrow> real list \<Rightarrow> 'g server" where
  "save_content_embedding st content_id embedding =
     (if db_fails st (PutItem CONTENT_EMBEDDINGS content_id) then st
      else st\<lparr>db_content_embeddings := (db_content_embeddings st)(content_id \<mapsto> embedding),
               cache_content_emb :=
                 (cache_content_emb st)(py_str content_id \<mapsto> (embedding, clock st))\<rparr>)"

text \<open>
  \<open>get_content_embedding(content_id, content)\<close>; \<open>content\<close> is \<open>None\<close> when the caller
  passes no record, and an empty dict is falsy like \<open>None\<close>.
\<close>

definition get_content_embedding ::
  "'g pylib \<Rightarrow> 'g server \<Rightarrow> pyval \<Rightarrow> content option \<Rightarrow> (error + real list) \<times> 'g server" where
  "get_content_embedding L st content_id content =
     (case cache_read st (cache_content_emb st (py_str content_id)) of
        Some embedding \<Rightarrow> (Inr embedding, st)
      | None \<Rightarrow>
          (case (if db_fails st (GetItem CONTENT_EMBEDDINGS content_id) then None
                 else db_content_embeddings st content_id) of
             Some embedding \<Rightarrow>
               (Inr embedding,
                st\<lparr>cache_content_emb :=
                     (cache_content_emb st)(py_str content_id \<mapsto> (embedding, clock st))\<rparr>)
           | None \<Rightarrow>
               (if content \<noteq> None \<and> content \<noteq> Some Map.empty then
                  (case create_content_embedding L (clock st) (the content) of
                     Inl e \<Rightarrow> (Inl e, st)
                   | Inr embedding \<Rightarrow>
                       (Inr embedding, save_content_embedding st content_id embedding))
                else
                  (let (embedding, g') = create_random_embedding L (rng st)
                   in (Inr embedding, st\<lparr>rng := g'\<rparr>)))))"

subsection \<open>Real-time learning\<close>

definition ACTION_WEIGHTS :: "int \<Rightarrow> real option" where
  "ACTION_WEIGHTS action_type =
     (if action_type = 0 then Some (2 / 10)
      else if action_type = 1 then Some 1
      else if action_type = 2 then Some (15 / 10)
      else if action_type = 3 then Some (12 / 10)
      else if action_type = 4 then Some (13 / 10)
      else if action_type = 5 then Some (- (3 / 10))
      else if action_type = 6 then Some (- (8 / 10))
      else if action_type = 7 then Some (- (8 / 10))
      else None)"

definition LEARNING_RATE :: real where
  "LEARNING_RATE = 1 / 10"

definition learn_from_interaction ::
  "'g pylib \<Rightarrow> 'g server \<Rightarrow> string \<Rightarrow> string \<Rightarrow> int \<Rightarrow> content option
     \<Rightarrow> (error + real list) \<times> 'g server" where
  "learn_from_interaction L st user_id content_id action_type content =
     (let weight = (case ACTION_WEIGHTS action_type of None \<Rightarrow> 0 | Some w \<Rightarrow> w);
          (user_emb, st1) = get_user_embedding L st user_id
      in case get_content_embedding L st1 (PStr content_id) content of
           (Inl e, st2) \<Rightarrow> (Inl e, st2)
         | (Inr content_emb, st2) \<Rightarrow>
             (case update_embedding user_emb content_emb weight LEARNING_RATE of
                Inl e \<Rightarrow> (Inl e, st2)
              | Inr updated_emb \<Rightarrow> (Inr updated_emb, save_user_embedding st2 user_id updated_emb)))"

subsection \<open>Catalog reads\<close>

text \<open>A scan deserialises its items into new dict objects.\<close>

definition alloc :: "content list \<Rightarrow> 'g server \<Rightarrow> nat list \<times> 'g server" where
  "alloc items st =
     (let base = next_addr st; n = length items
      in ([base..<base + n],
          st\<lparr>heap := (\<lambda>a. if base \<le> a \<and> a < base + n then items ! (a - base) else heap st a),
             next_addr := base + n\<rparr>))"

definition get_all_posts :: "'g server \<Rightarrow> nat list \<times> 'g server" where
  "get_all_posts st =
     (case cache_read st (cache_posts st) of
        Some items \<Rightarrow> (items, st)
      | None \<Rightarrow>
          (if db_fails st (Scan POSTS) then ([], st)
           else (let (items, st1) = alloc (take 500 (db_posts st)) st
                 in (items, st1\<lparr>cache_posts := Some (items, clock st)\<rparr>))))"

definition get_ott_videos :: "'g server \<Rightarrow> nat list \<times> 'g server" where
  "get_ott_videos st =
     (case cache_read st (cache_videos st) of
        Some items \<Rightarrow> (items, st)
      | None \<Rightarrow>
          (if db_fails st (Scan OTT_VIDEOS) then ([], st)
           else (let (items, st1) = alloc (take 200 (db_videos st)) st
                 in (items, st1\<lparr>cache_videos := Some (items, clock st)\<rparr>))))"

definition get_user_follows :: "'g server \<Rightarrow> string \<Rightarrow> string list \<times> 'g server" where
  "get_user_follows st user_id =
     (case cache_read st (cache_follows st user_id) of
        Some following \<Rightarrow> (following, st)
      | None \<Rightarrow>
          (if db_fails st (Query FOLLOWS user_id) then ([], st)
           else (let following = db_follows st user_id
                 in (following,
                     st\<lparr>cache_follows := (cache_follows st)(user_id \<mapsto> (following, clock st))\<rparr>))))"

section \<open>The recommendation engine\<close>

text \<open>
  \<open>score_content\<close>. The draw \<open>np.random.random()\<close> comes last; an exception leaves the
  state as it was when it was raised.
\<close>

definition score_content ::
  "'g pylib \<Rightarrow> 'g server \<Rightarrow> real list \<Rightarrow> content \<Rightarrow> string list \<Rightarrow> (error + real) \<times> 'g server" where
  "score_content L st user_emb content following =
     (let content_id = py_or (py_get content ''postId'' PNone)
                         (py_or (py_get content ''videoId'' PNone) (PStr []));
          creator_id = py_or (py_get content ''userId'' PNone)
                         (py_or (py_get content ''creatorId'' PNone) (PStr []))
      in case get_content_embedding L st content_id (Some content) of
           (Inl e, st1) \<Rightarrow> (Inl e, st1)
         | (Inr content_emb, st1) \<Rightarrow>
             (case
                rbind (similarity user_emb content_emb) (\<lambda>sim.
                rbind (get_likes content) (\<lambda>likes.
                rbind (get_views content) (\<lambda>views.
                rbind (get_comments content) (\<lambda>comments.
                rbind (py_truediv (likes * 2 + comments * 3) (max views 1)) (\<lambda>engagement_rate.
                  let score = sim * 50;
                      score = score + min (engagement_rate * 20) 20;
                      score = (if (case creator_id of PStr s \<Rightarrow> s \<in> set following | _ \<Rightarrow> False)
                               then score + 25 else score);
                      created_at = py_get content ''createdAt'' (PStr []);
                      score =
                        (if truthy created_at then
                           (case parse_created L created_at of
                              None \<Rightarrow> score
                            | Some created_dt \<Rightarrow>
                                score + max 0 (15 - hours_old (clock st1) created_dt / 4))
                         else score)
                  in Inr score)))))
              of
                Inl e \<Rightarrow> (Inl e, st1)
              | Inr score \<Rightarrow>
                  (let (noise, g') = np_random L (rng st1)
                   in (Inr (score + noise * 5), st1\<lparr>rng := g'\<rparr>))))"

text \<open>One entry of the returned list; \<open>round(score, 2)\<close> rounds half to even.\<close>

record recommendation =
  rec_contentId :: pyval
  rec_type :: pyval
  rec_score :: real
  rec_creatorId :: pyval

definition round_half_even :: "real \<Rightarrow> int" where
  "round_half_even x =
     (let f = \<lfloor>x\<rfloor>; d = x - of_int f
      in if d < 1 / 2 then f else if d > 1 / 2 then f + 1 else if even f then f else f + 1)"

definition py_round2 :: "real \<Rightarrow> real" where
  "py_round2 x = of_int (round_half_even (x * 100)) / 100"

definition make_entry :: "content \<Rightarrow> real \<Rightarrow> recommendation" where
  "make_entry content score =
     \<lparr>rec_contentId = py_get content ''contentId'' (PStr []),
      rec_type = py_get content ''_type'' (PStr ''unknown''),
      rec_score = py_round2 score,
      rec_creatorId = py_or (py_get content ''userId'' PNone) (py_get content ''creatorId'' PNone)\<rparr>"

text \<open>The scoring loop over the candidates, in their order.\<close>

fun score_all ::
  "'g pylib \<Rightarrow> 'g server \<Rightarrow> real list \<Rightarrow> string list \<Rightarrow> nat list
     \<Rightarrow> (error + recommendation list) \<times> 'g server" where
  "score_all L st user_emb following [] = (Inr [], st)"
| "score_all L st user_emb following (a # rest) =
     (case score_content L st user_emb (heap st a) following of
        (Inl e, st1) \<Rightarrow> (Inl e, st1)
      | (Inr score, st1) \<Rightarrow>
          (case score_all L st1 user_emb following rest of
             (Inl e, st2) \<Rightarrow> (Inl e, st2)
           | (Inr scored, st2) \<Rightarrow> (Inr (make_entry (heap st a) score # scored), st2)))"

text \<open>
  The loops \<open>for p in posts: p['_type'] = 'post'; p['contentId'] = p.get('postId', '')\<close>
  and its sibling for videos write into the dict objects of the list they walk.
\<close>

definition tag_record :: "string \<Rightarrow> string \<Rightarrow> content \<Rightarrow> content" where
  "tag_record kind id_key p =
     (let p1 = p(''_type'' \<mapsto> PStr kind)
      in p1(''contentId'' \<mapsto> py_get p1 id_key (PStr [])))"

definition tag_items :: "string \<Rightarrow> string \<Rightarrow> nat list \<Rightarrow> 'g server \<Rightarrow> 'g server" where
  "tag_items kind id_key items st =
     fold (\<lambda>a s. s\<lparr>heap := (heap s)(a := tag_record kind id_key (heap s a))\<rparr>) items st"

text \<open>\<open>xs[:limit]\<close> for any integer \<open>limit\<close>; a descending stable sort on the score.\<close>

definition py_take :: "int \<Rightarrow> 'a list \<Rightarrow> 'a list" where
  "py_take limit xs =
     (if 0 \<le> limit then take (nat limit) xs else take (length xs - nat (- limit)) xs)"

definition sort_by_score :: "recommendation list \<Rightarrow> recommendation list" where
  "sort_by_score scored = sort_key (\<lambda>x. - rec_score x) scored"

definition is_own :: "string \<Rightarrow> content \<Rightarrow> bool" where
  "is_own user_id c =
     (\<not> (py_get c ''userId'' PNone \<noteq> PStr user_id \<and> py_get c ''creatorId'' PNone \<noteq> PStr user_id))"

text \<open>
  \<open>get_recommendations\<close>, in two parts: everything up to the filter on the user's own
  content (\<open>gather_candidates\<close>), then the scoring loop, the sort and the slice.
\<close>

definition gather_candidates ::
  "'g pylib \<Rightarrow> 'g server \<Rightarrow> string \<Rightarrow> string
     \<Rightarrow> (real list \<times> string list \<times> nat list) \<times> 'g server" where
  "gather_candidates L st user_id content_type =
     (let st0 = st\<lparr>request_count := request_count st + 1\<rparr>;
          (user_emb, st1) = get_user_embedding L st0 user_id;
          (following, st2) = get_user_follows st1 user_id;
          (posts, st3) =
            (if content_type \<in> set [''all'', ''posts''] then
               (let (posts, s) = get_all_posts st2 in (posts, tag_items ''post'' ''postId'' posts s))
             else ([], st2));
          (videos, st4) =
            (if content_type \<in> set [''all'', ''videos''] then
               (let (videos, s) = get_ott_videos st3 in (videos, tag_items ''video'' ''videoId'' videos s))
             else ([], st3));
          all_content = filter (\<lambda>a. \<not> is_own user_id (heap st4 a)) (posts @ videos)
      in ((user_emb, following, all_content), st4))"

definition get_recommendations ::
  "'g pylib \<Rightarrow> 'g server \<Rightarrow> string \<Rightarrow> int \<Rightarrow> string
     \<Rightarrow> (error + recommendation list) \<times> 'g server" where
  "get_recommendations L st user_id limit content_type =
     (case gather_candidates L st user_id content_type of
        ((user_emb, following, all_content), st4) \<Rightarrow>
          (case score_all L st4 user_emb following all_content of
             (Inl e, st5) \<Rightarrow> (Inl e, st5)
           | (Inr scored, st5) \<Rightarrow> (Inr (py_take limit (sort_by_score scored)), st5)))"

subsection \<open>Repeated updates\<close>

text \<open>
  The learning loop applies \<open>update_embedding\<close> to its own output, once per
  interaction with the same content: \<open>repeated_update n\<close> is the vector after \<open>n\<close> steps
  toward a fixed target. \<open>cosine d X T\<close> is the value \<open>similarity\<close> computes from a dot
  product \<open>d\<close> and the two squared norms \<open>X\<close> and \<open>T\<close>.
\<close>

fun repeated_update :: "nat \<Rightarrow> real list \<Rightarrow> real list \<Rightarrow> real \<Rightarrow> real \<Rightarrow> error + real list" where
  "repeated_update 0 u t weight lr = Inr u"
| "repeated_update (Suc n) u t weight lr =
     rbind (repeated_update n u t weight lr) (\<lambda>v. update_embedding v t weight lr)"


definition cosine :: "real \<Rightarrow> real \<Rightarrow> real \<Rightarrow> real" where
  "cosine d X T = (if sqrt X = 0 \<or> sqrt T = 0 then 0 else d / (sqrt X * sqrt T))"

text \<open>
  Two vectors are parallel when the Cauchy-Schwarz inequality holds with equality:
  one is a multiple of the other, the zero vector being parallel to every vector. A
  vector that is not parallel to \<open>t\<close> has similarity strictly between -1 and 1 to it.
\<close>

definition parallel :: "real list \<Rightarrow> real list \<Rightarrow> bool" where
  "parallel u t = ((np_dot u t)\<^sup>2 = np_dot u u * np_dot t t)"


section \<open>Well-formed records\<close>

text \<open>
  What the code expects of a record without checking it. The id the record is known by
  (\<open>postId\<close>, else \<open>videoId\<close>) is absent, falsy or a string: \<open>id_ok\<close>. Each counter
  expression \<open>int(a or b or d)\<close> converts, its first truthy operand being a bool, an
  integer or an integer-formatted string of at most 4300 digits, and the quotients the
  code forms from the counters stay below the float bound: the five quotients of
  \<open>create_content_embedding\<close> for \<open>features_fit\<close>, the engagement rate of
  \<open>score_content\<close> for \<open>rate_fits\<close>.
\<close>

definition id_ok :: "content \<Rightarrow> bool" where
  "id_ok content =
     (case py_or (py_get content ''postId'' PNone)
             (py_or (py_get content ''videoId'' PNone) (PStr [])) of
        PStr s \<Rightarrow> True
      | v \<Rightarrow> False)"

definition features_fit :: "content \<Rightarrow> bool" where
  "features_fit content =
     (case get_likes content of Inl e \<Rightarrow> False | Inr likes \<Rightarrow>
      case get_views content of Inl e \<Rightarrow> False | Inr views \<Rightarrow>
      case get_comments content of Inl e \<Rightarrow> False | Inr comments \<Rightarrow>
      case get_shares content of Inl e \<Rightarrow> False | Inr shares \<Rightarrow>
        float_ok likes 1000 \<and> float_ok views 10000 \<and> float_ok comments 100 \<and>
        float_ok shares 50 \<and> float_ok (likes + comments * 2 + shares * 3) (max views 1))"

definition rate_fits :: "content \<Rightarrow> bool" where
  "rate_fits content =
     (case get_likes content of Inl e \<Rightarrow> False | Inr likes \<Rightarrow>
      case get_views content of Inl e \<Rightarrow> False | Inr views \<Rightarrow>
      case get_comments content of Inl e \<Rightarrow> False | Inr comments \<Rightarrow>
        float_ok (likes * 2 + comments * 3) (max views 1))"

text \<open>
  A record is well-formed when all three hold, and the records at hand are well-formed
  when every record on the heap and every record the store would return is.
\<close>

definition record_ok :: "content \<Rightarrow> bool" where
  "record_ok content = (features_fit content \<and> rate_fits content \<and> id_ok content)"

definition records_ok :: "'g server \<Rightarrow> bool" where
  "records_ok st =
     ((\<forall>a. record_ok (heap st a)) \<and> (\<forall>c \<in> set (db_posts st). record_ok c) \<and>
      (\<forall>c \<in> set (db_videos st). record_ok c))"

text \<open>
  What the library documents of the functions the model takes as parameters: a parsed
  timestamp has an hour in \<open>range(24)\<close> and a weekday in \<open>range(7)\<close>, and
  \<open>np.random.random()\<close> returns a float of the half-open interval \<open>[0, 1)\<close>.
\<close>

definition parser_ok :: "'g pylib \<Rightarrow> bool" where
  "parser_ok L = (\<forall>s d. fromisoformat L s = Some d \<longrightarrow> dt_hour d < 24 \<and> dt_weekday d < 7)"


text \<open>
  Vectors at rest have the embedding dimension: every content vector in the cache or
  the store, and every user vector there, has 64 components. \<open>np.dot\<close> raises on two
  vectors of different lengths, so scoring relies on it.
\<close>

definition emb_ok :: "'g server \<Rightarrow> bool" where
  "emb_ok st =
     ((\<forall>k e t. cache_content_emb st k = Some (e, t) \<longrightarrow> length e = EMBEDDING_DIM) \<and>
      (\<forall>k e. db_content_embeddings st k = Some e \<longrightarrow> length e = EMBEDDING_DIM) \<and>
      (\<forall>k e t. cache_user_emb st k = Some (e, t) \<longrightarrow> length e = EMBEDDING_DIM) \<and>
      (\<forall>k e. db_user_embeddings st k = Some e \<longrightarrow> length e = EMBEDDING_DIM))"

section \<open>The scoring terms as the specification words them\<close>






definition record_created :: "'g pylib \<Rightarrow> content \<Rightarrow> created option" where
  "record_created L content =
     (let created_at = py_get content ''createdAt'' (PStr [])
      in if truthy created_at then parse_created L created_at else None)"


section \<open>Concrete instances\<close>

text \<open>
  A server as \<open>__init__\<close> leaves it (empty cache, no request served) in front of an
  empty, available store, and one instance of the library parameters: a generator
  whose state counts its draws, a parser that knows two timestamps (a Monday midnight
  and the Tuesday 200 hours later), a constant digest. They are the concrete inputs of
  the examples below.
\<close>

definition fresh_server :: "'g \<Rightarrow> 'g server" where
  "fresh_server g =
     \<lparr>clock = 0, cache_ttl = 300, rng = g, heap = (\<lambda>a. Map.empty), next_addr = 0,
      cache_user_emb = Map.empty, cache_content_emb = Map.empty,
      cache_posts = None, cache_videos = None, cache_follows = Map.empty,
      db_fails = (\<lambda>r. False),
      db_user_embeddings = Map.empty, db_content_embeddings = Map.empty,
      db_posts = [], db_videos = [], db_follows = (\<lambda>u. []),
      request_count = 0\<rparr>"

definition example_lib :: "nat pylib" where
  "example_lib =
     \<lparr>np_randn = (\<lambda>g. (real g, Suc g)),
      np_random = (\<lambda>g. (1 / 2, Suc g)),
      fromisoformat =
        (\<lambda>s. if s = ''2024-01-01T00:00:00+00:00''
               then Some \<lparr>epoch_seconds = 1704067200, dt_hour = 0, dt_weekday = 0\<rparr>
             else if s = ''2024-01-09T08:00:00+00:00''
               then Some \<lparr>epoch_seconds = 1704787200, dt_hour = 8, dt_weekday = 1\<rparr>
             else None),
      md5_int = (\<lambda>s. 0)\<rparr>"





section \<open>Facts about the vector primitives\<close>

lemma sum_squares_nonneg: "0 \<le> sum_list (map (\<lambda>x. x * x) (a :: real list))"
  by (induction a) simp_all

lemma linalg_norm_nonneg: "0 \<le> linalg_norm a"
  by (simp add: linalg_norm_def sum_squares_nonneg)

lemma linalg_norm_scale:
  assumes "0 < c"
  shows "linalg_norm (map (\<lambda>x. x / c) a) = linalg_norm a / c"
proof -
  have "sum_list (map (\<lambda>x. (x / c) * (x / c)) a) = sum_list (map (\<lambda>x. x * x) a) / (c * c)"
    by (induction a) (simp_all add: add_divide_distrib)
  then have "linalg_norm (map (\<lambda>x. x / c) a) = sqrt (sum_list (map (\<lambda>x. x * x) a) / (c * c))"
    by (simp add: linalg_norm_def comp_def)
  also have "\<dots> = linalg_norm a / c"
    using assms by (simp add: linalg_norm_def real_sqrt_divide)
  finally show ?thesis .
qed

lemma update_embedding_same_length:
  assumes "length current = length target"
  shows "update_embedding current target weight lr =
     (let updated = map2 (\<lambda>c t. c + lr * weight * (t - c)) current target in
      Inr (if linalg_norm updated > 1 then map (\<lambda>x. x / linalg_norm updated) updated else updated))"
proof -
  have "map2 (+) current (map (\<lambda>d. lr * weight * d) (map2 (-) target current))
      = map2 (\<lambda>c t. c + lr * weight * (t - c)) current target"
    using assms
    by (induction current target rule: list_induct2) simp_all
  then show ?thesis using assms
    by (simp add: update_embedding_def broadcast2_def Let_def)
qed

section \<open>C1: the bounded update\<close>

text \<open>
  C1. For vectors of one length, \<open>update_embedding\<close> returns
  \<open>current + lr * weight * (target - current)\<close> itself when that vector has norm at most 1,
  and that vector divided by its norm (a unit vector) when its norm exceeds 1; the
  output's norm is at most 1 in either case. Stated over the reals.
\<close>

theorem update_embedding_bounded:
  assumes "length current = length target"
  shows "\<exists>out. update_embedding current target weight lr = Inr out \<and>
     (let updated = map2 (\<lambda>c t. c + lr * weight * (t - c)) current target in
        (linalg_norm updated \<le> 1 \<longrightarrow> out = updated) \<and>
        (linalg_norm updated > 1 \<longrightarrow>
           out = map (\<lambda>x. x / linalg_norm updated) updated \<and> linalg_norm out = 1)) \<and>
     linalg_norm out \<le> 1"
proof -
  define updated where "updated = map2 (\<lambda>c t. c + lr * weight * (t - c)) current target"
  define out where
    "out = (if linalg_norm updated > 1 then map (\<lambda>x. x / linalg_norm updated) updated else updated)"
  have run: "update_embedding current target weight lr = Inr out"
    using assms by (simp add: update_embedding_same_length updated_def out_def Let_def)
  have unit: "linalg_norm out = 1" if "linalg_norm updated > 1"
    using that by (simp add: out_def linalg_norm_scale)
  have "linalg_norm out \<le> 1"
  proof (cases "linalg_norm updated > 1")
    case True
    then show ?thesis using unit by simp
  next
    case False
    then show ?thesis by (simp add: out_def)
  qed
  with run unit show ?thesis
    unfolding Let_def updated_def [symmetric] by (auto simp: out_def)
qed

theorem update_embedding_bounded_witness:
  "length [0, 0 :: real] = length [3, 4 :: real] \<and>
   (\<exists>out. update_embedding [0, 0] [3, 4] 1 1 = Inr out \<and> linalg_norm out \<le> 1)"
  using update_embedding_bounded [of "[0, 0]" "[3, 4]" 1 1] by auto

lemma linalg_norm_zero_iff: "linalg_norm a = 0 \<longleftrightarrow> (\<forall>x\<in>set a. x = 0)"
proof -
  have "sum_list (map (\<lambda>x. x * x) a) = 0 \<longleftrightarrow> (\<forall>x\<in>set a. x = 0)"
  proof (induction a)
    case Nil
    then show ?case by simp
  next
    case (Cons x xs)
    have "0 \<le> x * x" by simp
    then have "x * x + sum_list (map (\<lambda>x. x * x) xs) = 0 \<longleftrightarrow> x * x = 0 \<and> sum_list (map (\<lambda>x. x * x) xs) = 0"
      using sum_squares_nonneg [of xs] by (simp add: add_nonneg_eq_0_iff)
    with Cons show ?case by simp
  qed
  then show ?thesis by (simp add: linalg_norm_def)
qed

lemma np_dot_commute: "np_dot a b = np_dot b a"
proof -
  have "map2 (*) a b = map2 (*) b (a :: real list)"
  proof (induction a arbitrary: b)
    case Nil
    then show ?case by simp
  next
    case (Cons x xs)
    then show ?case by (cases b) (simp_all add: mult.commute)
  qed
  then show ?thesis by (simp add: np_dot_def)
qed

lemma np_dot_self: "np_dot a a = sum_list (map (\<lambda>x. x * x) a)"
  by (induction a) (simp_all add: np_dot_def)

lemma cauchy_step:
  fixes x y D A B :: real
  assumes "D\<^sup>2 \<le> A * B" "0 \<le> A" "0 \<le> B"
  shows "(x * y + D)\<^sup>2 \<le> (x * x + A) * (y * y + B)"
proof -
  have nn: "0 \<le> x\<^sup>2 * B + y\<^sup>2 * A" using assms by simp
  have "(2 * x * y * D)\<^sup>2 = 4 * (x\<^sup>2 * y\<^sup>2) * D\<^sup>2" by (simp add: power2_eq_square)
  also have "\<dots> \<le> 4 * (x\<^sup>2 * y\<^sup>2) * (A * B)"
    using assms(1) by (intro mult_left_mono) simp_all
  also have "\<dots> \<le> (x\<^sup>2 * B + y\<^sup>2 * A)\<^sup>2"
  proof -
    have "0 \<le> (x\<^sup>2 * B - y\<^sup>2 * A)\<^sup>2" by simp
    then show ?thesis by (simp add: power2_eq_square algebra_simps)
  qed
  finally have "2 * x * y * D \<le> x\<^sup>2 * B + y\<^sup>2 * A"
    using nn by (meson power2_le_imp_le)
  then show ?thesis using assms(1) by (simp add: power2_eq_square algebra_simps)
qed

lemma cauchy_schwarz_list:
  assumes "length a = length b"
  shows "(np_dot a b)\<^sup>2 \<le> sum_list (map (\<lambda>x. x * x) a) * sum_list (map (\<lambda>x. x * x) b)"
  using assms
proof (induction a b rule: list_induct2)
  case Nil
  then show ?case by (simp add: np_dot_def)
next
  case (Cons x xs y ys)
  have "(x * y + np_dot xs ys)\<^sup>2
      \<le> (x * x + sum_list (map (\<lambda>x. x * x) xs)) * (y * y + sum_list (map (\<lambda>x. x * x) ys))"
    using Cons.IH sum_squares_nonneg [of xs] sum_squares_nonneg [of ys] by (rule cauchy_step)
  then show ?case by (simp add: np_dot_def)
qed

lemma abs_dot_le_norms:
  assumes "length a = length b"
  shows "\<bar>np_dot a b\<bar> \<le> linalg_norm a * linalg_norm b"
proof -
  have "\<bar>np_dot a b\<bar> = sqrt ((np_dot a b)\<^sup>2)" by simp
  also have "\<dots> \<le> sqrt (sum_list (map (\<lambda>x. x * x) a) * sum_list (map (\<lambda>x. x * x) b))"
    using cauchy_schwarz_list [OF assms] by (simp only: real_sqrt_le_iff)
  also have "\<dots> = linalg_norm a * linalg_norm b"
    by (simp add: linalg_norm_def real_sqrt_mult)
  finally show ?thesis .
qed

lemma linalg_norm_square: "linalg_norm a * linalg_norm a = sum_list (map (\<lambda>x. x * x) a)"
  using sum_squares_nonneg [of a] by (simp add: linalg_norm_def)

section \<open>C7: cosine similarity\<close>

text \<open>
  C7. \<open>similarity\<close> returns exactly 0 when either vector has zero norm, without
  raising; \<open>similarity v v\<close> is 1 for every vector with a nonzero component; and for two
  vectors of one length it returns a value in \<open>[-1, 1]\<close> that is the same in both
  argument orders. Stated over the reals, where the value 1 is exact.
\<close>

theorem similarity_cosine:
  "(linalg_norm a = 0 \<or> linalg_norm b = 0 \<longrightarrow> similarity a b = Inr 0) \<and>
   ((\<exists>x\<in>set a. x \<noteq> 0) \<longrightarrow> similarity a a = Inr 1) \<and>
   (length a = length b \<longrightarrow>
      (\<exists>s. similarity a b = Inr s \<and> similarity b a = Inr s \<and> - 1 \<le> s \<and> s \<le> 1))"
proof (intro conjI impI)
  assume "linalg_norm a = 0 \<or> linalg_norm b = 0"
  then show "similarity a b = Inr 0" by (auto simp: similarity_def Let_def)
next
  assume "\<exists>x\<in>set a. x \<noteq> 0"
  then have nz: "linalg_norm a \<noteq> 0" by (simp add: linalg_norm_zero_iff)
  have "np_dot a a = linalg_norm a * linalg_norm a"
    by (simp only: np_dot_self linalg_norm_square)
  moreover have "linalg_norm a * linalg_norm a \<noteq> 0"
    using nz by simp
  ultimately have one: "np_dot a a / (linalg_norm a * linalg_norm a) = 1"
    by (metis divide_self)
  show "similarity a a = Inr 1"
    unfolding similarity_def Let_def using nz by (simp only: one if_False simp_thms)
next
  assume len: "length a = length b"
  show "\<exists>s. similarity a b = Inr s \<and> similarity b a = Inr s \<and> - 1 \<le> s \<and> s \<le> 1"
  proof (cases "linalg_norm a = 0 \<or> linalg_norm b = 0")
    case True
    then show ?thesis by (auto simp: similarity_def Let_def)
  next
    case False
    define s where "s = np_dot a b / (linalg_norm a * linalg_norm b)"
    have pos: "0 < linalg_norm a * linalg_norm b"
      using False linalg_norm_nonneg [of a] linalg_norm_nonneg [of b] by (simp add: less_le)
    have "\<bar>s\<bar> \<le> 1"
      using abs_dot_le_norms [OF len] pos by (simp add: s_def)
    moreover have "similarity a b = Inr s"
      using False len by (simp add: similarity_def Let_def s_def)
    moreover have "similarity b a = Inr s"
      using False len by (auto simp: similarity_def Let_def s_def np_dot_commute mult.commute)
    ultimately show ?thesis by (auto simp: abs_le_iff)
  qed
qed

theorem similarity_cosine_witness:
  "similarity [0, 0] [3, 4] = Inr 0 \<and> similarity [3, 4] [3, 4] = Inr 1 \<and>
   (\<exists>s. similarity [3, 4] [4, 3] = Inr s \<and> similarity [4, 3] [3, 4] = Inr s \<and> - 1 \<le> s \<and> s \<le> 1)"
  using similarity_cosine [of "[0, 0]" "[3, 4]"] similarity_cosine [of "[3, 4]" "[4, 3]"]
  by (simp add: linalg_norm_def)

lemma np_dot_blend:
  assumes "length u = length t"
  shows "np_dot (map2 (\<lambda>c t. c + \<alpha> * (t - c)) u t) t = (1 - \<alpha>) * np_dot u t + \<alpha> * np_dot t t"
  using assms
  by (induction u t rule: list_induct2) (simp_all add: np_dot_def algebra_simps)

lemma sumsq_blend:
  assumes "length u = length t"
  shows "sum_list (map (\<lambda>x. x * x) (map2 (\<lambda>c t. c + \<alpha> * (t - c)) u t))
       = (1 - \<alpha>)\<^sup>2 * np_dot u u + 2 * \<alpha> * (1 - \<alpha>) * np_dot u t + \<alpha>\<^sup>2 * np_dot t t"
  using assms
  by (induction u t rule: list_induct2) (simp_all add: np_dot_def algebra_simps power2_eq_square)

lemma cross_le_pos:
  fixes a b U V :: real
  assumes "a\<^sup>2 * V \<le> b\<^sup>2 * U" "0 \<le> b" "0 \<le> U" "0 \<le> V"
  shows "a * sqrt V \<le> b * sqrt U"
proof (cases "a \<le> 0")
  case True
  then have "a * sqrt V \<le> 0" using assms(4) by (simp add: mult_nonpos_nonneg)
  also have "0 \<le> b * sqrt U" using assms by simp
  finally show ?thesis .
next
  case False
  have "(a * sqrt V)\<^sup>2 \<le> (b * sqrt U)\<^sup>2"
    using assms by (simp add: power_mult_distrib)
  moreover have "0 \<le> b * sqrt U" using assms by simp
  ultimately show ?thesis by (rule power2_le_imp_le)
qed

lemma cross_le_neg:
  fixes a b U V :: real
  assumes "b\<^sup>2 * U \<le> a\<^sup>2 * V" "a \<le> 0" "0 \<le> U" "0 \<le> V"
  shows "a * sqrt V \<le> b * sqrt U"
proof -
  have "(- b) * sqrt U \<le> (- a) * sqrt V"
    using assms by (intro cross_le_pos) simp_all
  then show ?thesis by simp
qed

text \<open>The polynomial identity behind the monotonicity.\<close>

lemma blend_identity:
  fixes a T U \<alpha> :: real
  defines "b \<equiv> (1 - \<alpha>) * a + \<alpha> * T"
  defines "V \<equiv> (1 - \<alpha>)\<^sup>2 * U + 2 * \<alpha> * (1 - \<alpha>) * a + \<alpha>\<^sup>2 * T"
  shows "b\<^sup>2 * U - a\<^sup>2 * V = \<alpha> * (T * U - a\<^sup>2) * (b + (1 - \<alpha>) * a)"
  unfolding b_def V_def by (simp add: power2_eq_square algebra_simps)

lemma cosine_le_iff:
  fixes a b U V T :: real
  assumes "0 < U" "0 < V" "0 < T"
  shows "cosine a U T \<le> cosine b V T \<longleftrightarrow> a * sqrt V \<le> b * sqrt U"
proof -
  have pos: "0 < sqrt U" "0 < sqrt V" "0 < sqrt T" using assms by simp_all
  have "cosine a U T \<le> cosine b V T \<longleftrightarrow> a / (sqrt U * sqrt T) \<le> b / (sqrt V * sqrt T)"
    using pos by (simp add: cosine_def)
  also have "\<dots> \<longleftrightarrow> a * (sqrt V * sqrt T) \<le> b * (sqrt U * sqrt T)"
    using pos by (simp add: frac_le_eq divide_le_0_iff field_simps)
  also have "\<dots> \<longleftrightarrow> (a * sqrt V) * sqrt T \<le> (b * sqrt U) * sqrt T"
    by (simp add: mult.assoc)
  also have "\<dots> \<longleftrightarrow> a * sqrt V \<le> b * sqrt U"
    using pos(3) by (simp only: mult_le_cancel_right_pos)
  finally show ?thesis .
qed

lemma cosine_nonneg:
  assumes "0 \<le> d" "0 \<le> X" "0 \<le> T"
  shows "0 \<le> cosine d X T"
  using assms by (simp add: cosine_def)

lemma cosine_nonpos:
  assumes "d \<le> 0" "0 \<le> X" "0 \<le> T"
  shows "cosine d X T \<le> 0"
proof -
  have "0 \<le> sqrt X * sqrt T" using assms by simp
  then have "d / (sqrt X * sqrt T) \<le> 0"
    using assms(1) by (rule divide_nonpos_nonneg [rotated])
  then show ?thesis by (simp add: cosine_def)
qed

lemma cosine_step_up:
  fixes a T U \<alpha> :: real
  assumes al: "0 \<le> \<alpha>" "\<alpha> \<le> 1" and cs: "a\<^sup>2 \<le> U * T" and nn: "0 \<le> U" "0 \<le> T"
  defines "b \<equiv> (1 - \<alpha>) * a + \<alpha> * T"
  defines "V \<equiv> (1 - \<alpha>)\<^sup>2 * U + 2 * \<alpha> * (1 - \<alpha>) * a + \<alpha>\<^sup>2 * T"
  assumes V: "0 \<le> V"
  shows "cosine a U T \<le> cosine b V T"
proof (cases "T = 0")
  case True
  then show ?thesis by (simp add: cosine_def)
next
  case False
  then have T: "0 < T" using nn by simp
  show ?thesis
  proof (cases "U = 0")
    case True
    then have "a = 0" using cs by simp
    then have "0 \<le> b" using al nn by (simp add: b_def)
    then have "0 \<le> cosine b V T" using V nn by (intro cosine_nonneg)
    then show ?thesis using True by (simp add: cosine_def)
  next
    case False
    then have U: "0 < U" using nn by simp
    have ident: "b\<^sup>2 * U - a\<^sup>2 * V = \<alpha> * (T * U - a\<^sup>2) * (b + (1 - \<alpha>) * a)"
      unfolding b_def V_def by (rule blend_identity)
    have gap: "0 \<le> T * U - a\<^sup>2" using cs by (simp add: mult.commute)
    show ?thesis
    proof (cases "V = 0")
      case True
      have "a \<le> 0"
      proof (rule ccontr)
        assume "\<not> a \<le> 0"
        then have a: "0 < a" by simp
        have t1: "0 \<le> (1 - \<alpha>)\<^sup>2 * U" using U by simp
        have t2: "0 \<le> 2 * \<alpha> * (1 - \<alpha>) * a" using al a by simp
        have t3: "0 \<le> \<alpha>\<^sup>2 * T" using T by simp
        from True t1 t2 t3 have "(1 - \<alpha>)\<^sup>2 * U = 0" "\<alpha>\<^sup>2 * T = 0"
          unfolding V_def by linarith+
        then have "\<alpha> = 1" "\<alpha> = 0" using U T by simp_all
        then show False by simp
      qed
      then have "cosine a U T \<le> 0"
        using nn by (intro cosine_nonpos)
      then show ?thesis using True by (simp add: cosine_def)
    next
      case False
      then have Vp: "0 < V" using V by simp
      have "a * sqrt V \<le> b * sqrt U"
      proof (cases "0 < a")
        case True
        have b0: "0 \<le> b" using True al nn by (simp add: b_def)
        have "0 \<le> b + (1 - \<alpha>) * a" using b0 True al by simp
        then have "0 \<le> \<alpha> * (T * U - a\<^sup>2) * (b + (1 - \<alpha>) * a)"
          using al gap by simp
        then have "a\<^sup>2 * V \<le> b\<^sup>2 * U" using ident by linarith
        then show ?thesis using b0 U Vp by (intro cross_le_pos) simp_all
      next
        case False
        then have a0: "a \<le> 0" by simp
        show ?thesis
        proof (cases "0 \<le> b")
          case True
          have "a * sqrt V \<le> 0" using a0 Vp by (simp add: mult_nonpos_nonneg)
          also have "0 \<le> b * sqrt U" using True U by simp
          finally show ?thesis .
        next
          case False
          have "(1 - \<alpha>) * a \<le> 0" using a0 al by (simp add: mult_nonneg_nonpos)
          then have "b + (1 - \<alpha>) * a \<le> 0" using False by simp
          moreover have "0 \<le> \<alpha> * (T * U - a\<^sup>2)" using al gap by simp
          ultimately have "\<alpha> * (T * U - a\<^sup>2) * (b + (1 - \<alpha>) * a) \<le> 0"
            by (rule mult_nonneg_nonpos [rotated])
          then have "b\<^sup>2 * U \<le> a\<^sup>2 * V" using ident by linarith
          then show ?thesis using a0 U Vp by (intro cross_le_neg) simp_all
        qed
      qed
      then show ?thesis using cosine_le_iff [OF U Vp T] by simp
    qed
  qed
qed

lemma cosine_step_down:
  fixes a T U \<alpha> :: real
  assumes al: "\<alpha> \<le> 0" and cs: "a\<^sup>2 \<le> U * T" and nn: "0 \<le> U" "0 \<le> T"
  defines "b \<equiv> (1 - \<alpha>) * a + \<alpha> * T"
  defines "V \<equiv> (1 - \<alpha>)\<^sup>2 * U + 2 * \<alpha> * (1 - \<alpha>) * a + \<alpha>\<^sup>2 * T"
  assumes V: "0 \<le> V"
  shows "cosine b V T \<le> cosine a U T"
proof (cases "T = 0")
  case True
  then show ?thesis by (simp add: cosine_def)
next
  case False
  then have T: "0 < T" using nn by simp
  have one: "1 \<le> 1 - \<alpha>" using al by simp
  show ?thesis
  proof (cases "U = 0")
    case True
    then have "a = 0" using cs by simp
    then have "b \<le> 0" using al nn by (simp add: b_def mult_nonpos_nonneg)
    then have "cosine b V T \<le> 0" using V nn by (intro cosine_nonpos)
    then show ?thesis using True by (simp add: cosine_def)
  next
    case False
    then have U: "0 < U" using nn by simp
    have ident: "b\<^sup>2 * U - a\<^sup>2 * V = \<alpha> * (T * U - a\<^sup>2) * (b + (1 - \<alpha>) * a)"
      unfolding b_def V_def by (rule blend_identity)
    have gap: "0 \<le> T * U - a\<^sup>2" using cs by (simp add: mult.commute)
    have neg: "\<alpha> * (T * U - a\<^sup>2) \<le> 0" using al gap by (rule mult_nonpos_nonneg)
    show ?thesis
    proof (cases "V = 0")
      case True
      have "0 \<le> a"
      proof (rule ccontr)
        assume "\<not> 0 \<le> a"
        then have a: "a < 0" by simp
        have "0 < (1 - \<alpha>)\<^sup>2 * U" using U one by simp
        moreover have "0 \<le> 2 * \<alpha> * (1 - \<alpha>) * a"
        proof -
          have "0 \<le> (- \<alpha>) * ((1 - \<alpha>) * (- a))"
            using al one a by (intro mult_nonneg_nonneg) simp_all
          then show ?thesis by (simp add: algebra_simps)
        qed
        moreover have "0 \<le> \<alpha>\<^sup>2 * T" using T by simp
        ultimately have "0 < V" unfolding V_def by linarith
        then show False using True by simp
      qed
      then have "0 \<le> cosine a U T" using nn by (intro cosine_nonneg)
      then show ?thesis using True by (simp add: cosine_def)
    next
      case False
      then have Vp: "0 < V" using V by simp
      have "b * sqrt U \<le> a * sqrt V"
      proof (cases "0 < b")
        case True
        have "\<alpha> * T \<le> 0" using al nn by (simp add: mult_nonpos_nonneg)
        then have "0 < (1 - \<alpha>) * a" using True by (simp add: b_def)
        then have a: "0 < a" using one by (simp add: zero_less_mult_iff)
        have "0 \<le> b + (1 - \<alpha>) * a" using True a one by simp
        with neg have "\<alpha> * (T * U - a\<^sup>2) * (b + (1 - \<alpha>) * a) \<le> 0"
          by (rule mult_nonpos_nonneg)
        then have "b\<^sup>2 * U \<le> a\<^sup>2 * V" using ident by linarith
        then show ?thesis using a U Vp by (intro cross_le_pos) simp_all
      next
        case False
        then have b0: "b \<le> 0" by simp
        show ?thesis
        proof (cases "0 \<le> a")
          case True
          have "b * sqrt U \<le> 0" using b0 U by (simp add: mult_nonpos_nonneg)
          also have "0 \<le> a * sqrt V" using True Vp by simp
          finally show ?thesis .
        next
          case False
          then have "(1 - \<alpha>) * a \<le> 0" using one by (simp add: mult_nonneg_nonpos)
          then have "b + (1 - \<alpha>) * a \<le> 0" using b0 by simp
          with neg have "0 \<le> \<alpha> * (T * U - a\<^sup>2) * (b + (1 - \<alpha>) * a)"
            by (rule mult_nonpos_nonpos)
          then have "a\<^sup>2 * V \<le> b\<^sup>2 * U" using ident by linarith
          then show ?thesis using b0 U Vp by (intro cross_le_neg) simp_all
        qed
      qed
      then show ?thesis using cosine_le_iff [OF Vp U T] by simp
    qed
  qed
qed

lemma linalg_norm_dot: "linalg_norm a = sqrt (np_dot a a)"
  by (simp add: linalg_norm_def np_dot_self)

lemma np_dot_nonneg: "0 \<le> np_dot a a"
  by (simp add: np_dot_self sum_squares_nonneg)

lemma similarity_cosine_form:
  assumes "length a = length b"
  shows "similarity a b = Inr (cosine (np_dot a b) (np_dot a a) (np_dot b b))"
  using assms by (simp add: similarity_def Let_def cosine_def linalg_norm_dot)

lemma np_dot_scale: "np_dot (map (\<lambda>x. x / c) v) t = np_dot v t / c"
proof -
  have "sum_list (map2 (*) (map (\<lambda>x. x / c) v) t) = sum_list (map2 (*) v t) / c"
  proof (induction v arbitrary: t)
    case Nil
    then show ?case by simp
  next
    case (Cons x xs)
    then show ?case by (cases t) (simp_all add: add_divide_distrib)
  qed
  then show ?thesis by (simp add: np_dot_def)
qed

lemma similarity_scale:
  assumes "0 < c"
  shows "similarity (map (\<lambda>x. x / c) v) t = similarity v t"
proof -
  have n: "linalg_norm (map (\<lambda>x. x / c) v) = linalg_norm v / c"
    using assms by (rule linalg_norm_scale)
  have "np_dot v t / c / (linalg_norm v / c * linalg_norm t) = np_dot v t / (linalg_norm v * linalg_norm t)"
    using assms by simp
  then show ?thesis
    using assms by (simp add: similarity_def Let_def n np_dot_scale)
qed

lemma update_embedding_similarity:
  assumes len: "length u = length t"
  shows "\<exists>u'. update_embedding u t weight lr = Inr u' \<and> length u' = length t \<and>
           similarity u' t =
             similarity (map2 (\<lambda>c t. c + lr * weight * (t - c)) u t) t"
proof -
  define updated where "updated = map2 (\<lambda>c t. c + lr * weight * (t - c)) u t"
  show ?thesis
  proof (cases "linalg_norm updated > 1")
    case True
    then have "update_embedding u t weight lr = Inr (map (\<lambda>x. x / linalg_norm updated) updated)"
      using len by (simp add: update_embedding_same_length updated_def Let_def)
    moreover have "similarity (map (\<lambda>x. x / linalg_norm updated) updated) t = similarity updated t"
      using True by (intro similarity_scale) simp
    moreover have "length updated = length t" using len by (simp add: updated_def)
    ultimately show ?thesis unfolding updated_def [symmetric] by simp
  next
    case False
    then have "update_embedding u t weight lr = Inr updated"
      using len by (simp add: update_embedding_same_length updated_def Let_def)
    moreover have "length updated = length t" using len by (simp add: updated_def)
    ultimately show ?thesis unfolding updated_def [symmetric] by simp
  qed
qed

lemma blend_cosine:
  fixes \<alpha> :: real and u t :: "real list"
  assumes len: "length u = length t"
  defines "v \<equiv> map2 (\<lambda>c t. c + \<alpha> * (t - c)) u t"
  shows "(0 \<le> \<alpha> \<and> \<alpha> \<le> 1 \<longrightarrow>
            cosine (np_dot u t) (np_dot u u) (np_dot t t) \<le> cosine (np_dot v t) (np_dot v v) (np_dot t t)) \<and>
         (\<alpha> \<le> 0 \<longrightarrow>
            cosine (np_dot v t) (np_dot v v) (np_dot t t) \<le> cosine (np_dot u t) (np_dot u u) (np_dot t t))"
proof -
  have b: "np_dot v t = (1 - \<alpha>) * np_dot u t + \<alpha> * np_dot t t"
    unfolding v_def using len by (rule np_dot_blend)
  have V: "np_dot v v = (1 - \<alpha>)\<^sup>2 * np_dot u u + 2 * \<alpha> * (1 - \<alpha>) * np_dot u t + \<alpha>\<^sup>2 * np_dot t t"
    using sumsq_blend [OF len, of \<alpha>] by (simp add: v_def np_dot_self)
  have cs: "(np_dot u t)\<^sup>2 \<le> np_dot u u * np_dot t t"
    using cauchy_schwarz_list [OF len] by (simp add: np_dot_self)
  have Vn: "0 \<le> (1 - \<alpha>)\<^sup>2 * np_dot u u + 2 * \<alpha> * (1 - \<alpha>) * np_dot u t + \<alpha>\<^sup>2 * np_dot t t"
    using np_dot_nonneg [of v] by (simp only: V)
  show ?thesis
    unfolding b V
    using cosine_step_up [OF _ _ cs np_dot_nonneg np_dot_nonneg Vn]
          cosine_step_down [OF _ cs np_dot_nonneg np_dot_nonneg Vn]
    by blast
qed

lemma update_embedding_step:
  assumes len: "length u = length t"
  shows "\<exists>u' s s'. update_embedding u t weight lr = Inr u' \<and> length u' = length t \<and>
           similarity u t = Inr s \<and> similarity u' t = Inr s' \<and>
           (0 \<le> lr * weight \<and> lr * weight \<le> 1 \<longrightarrow> s \<le> s') \<and>
           (lr * weight \<le> 0 \<longrightarrow> s' \<le> s)"
proof -
  define v where "v = map2 (\<lambda>c t. c + lr * weight * (t - c)) u t"
  have lv: "length v = length t" using len by (simp add: v_def)
  obtain u' where u': "update_embedding u t weight lr = Inr u'" "length u' = length t"
      "similarity u' t = similarity v t"
    using update_embedding_similarity [OF len, of weight lr] unfolding v_def by blast
  have "similarity u t = Inr (cosine (np_dot u t) (np_dot u u) (np_dot t t))"
    using len by (rule similarity_cosine_form)
  moreover have "similarity u' t = Inr (cosine (np_dot v t) (np_dot v v) (np_dot t t))"
    using u'(3) lv by (simp add: similarity_cosine_form)
  ultimately show ?thesis
    using u'(1,2) blend_cosine [OF len, of "lr * weight"] unfolding v_def by simp
qed

lemma repeated_update_length:
  assumes "length u = length t"
  shows "\<exists>v. repeated_update n u t weight lr = Inr v \<and> length v = length t"
proof (induction n)
  case 0
  then show ?case using assms by simp
next
  case (Suc n)
  then obtain v where v: "repeated_update n u t weight lr = Inr v" "length v = length t"
    by blast
  from update_embedding_step [OF v(2), of weight lr] v(1)
  show ?case by (auto simp: rbind_def)
qed

lemma action_weights_range:
  assumes "ACTION_WEIGHTS a = Some w"
  shows "(0 \<le> LEARNING_RATE * w \<and> LEARNING_RATE * w \<le> 1) \<or> LEARNING_RATE * w \<le> 0"
  using assms by (auto simp: ACTION_WEIGHTS_def LEARNING_RATE_def split: if_splits)

lemma sqrt_hundredth: "sqrt (1 / 100) = 1 / 10"
proof -
  have "sqrt ((1 / 10)\<^sup>2) = 1 / 10" by simp
  then show ?thesis by (simp add: power2_eq_square)
qed


text \<open>Strict versions: the similarity moves when the vectors are not parallel.\<close>

lemma gram_identity:
  fixes a T U \<alpha> :: real
  defines "b \<equiv> (1 - \<alpha>) * a + \<alpha> * T"
  defines "V \<equiv> (1 - \<alpha>)\<^sup>2 * U + 2 * \<alpha> * (1 - \<alpha>) * a + \<alpha>\<^sup>2 * T"
  shows "V * T - b\<^sup>2 = (1 - \<alpha>)\<^sup>2 * (U * T - a\<^sup>2)"
  unfolding b_def V_def by (simp add: power2_eq_square algebra_simps)

lemma cross_less_pos:
  fixes a b U V :: real
  assumes "a\<^sup>2 * V < b\<^sup>2 * U" "0 \<le> b" "0 \<le> U" "0 \<le> V"
  shows "a * sqrt V < b * sqrt U"
proof -
  have "(a * sqrt V)\<^sup>2 < (b * sqrt U)\<^sup>2"
    using assms by (simp add: power_mult_distrib)
  moreover have "0 \<le> b * sqrt U" using assms by simp
  ultimately show ?thesis by (rule power2_less_imp_less)
qed

lemma cross_less_neg:
  fixes a b U V :: real
  assumes "b\<^sup>2 * U < a\<^sup>2 * V" "a \<le> 0" "0 \<le> U" "0 \<le> V"
  shows "a * sqrt V < b * sqrt U"
proof -
  have "(- b) * sqrt U < (- a) * sqrt V"
    using assms by (intro cross_less_pos) simp_all
  then show ?thesis by simp
qed

lemma cosine_less_iff:
  fixes a b U V T :: real
  assumes "0 < U" "0 < V" "0 < T"
  shows "cosine a U T < cosine b V T \<longleftrightarrow> a * sqrt V < b * sqrt U"
proof -
  have pos: "0 < sqrt U" "0 < sqrt V" "0 < sqrt T" using assms by simp_all
  have "cosine a U T < cosine b V T \<longleftrightarrow> a / (sqrt U * sqrt T) < b / (sqrt V * sqrt T)"
    using pos by (simp add: cosine_def)
  also have "\<dots> \<longleftrightarrow> a * (sqrt V * sqrt T) < b * (sqrt U * sqrt T)"
    using pos by (simp add: field_simps)
  also have "\<dots> \<longleftrightarrow> (a * sqrt V) * sqrt T < (b * sqrt U) * sqrt T"
    by (simp add: mult.assoc)
  also have "\<dots> \<longleftrightarrow> a * sqrt V < b * sqrt U"
    using pos(3) by (simp only: mult_less_cancel_right_pos)
  finally show ?thesis .
qed

lemma gram_positive:
  fixes a T U :: real
  assumes "a\<^sup>2 < U * T" "0 \<le> U" "0 \<le> T"
  shows "0 < U \<and> 0 < T"
proof -
  have "0 < U * T" using assms(1) zero_le_power2 [of a] by linarith
  then show ?thesis using assms(2,3) by (simp add: zero_less_mult_iff)
qed

lemma blend_norm_positive:
  fixes a T U \<alpha> :: real
  assumes cs: "a\<^sup>2 < U * T" and nn: "0 \<le> U" "0 \<le> T"
  defines "b \<equiv> (1 - \<alpha>) * a + \<alpha> * T"
  defines "V \<equiv> (1 - \<alpha>)\<^sup>2 * U + 2 * \<alpha> * (1 - \<alpha>) * a + \<alpha>\<^sup>2 * T"
  shows "0 < V"
proof -
  have T: "0 < T" using gram_positive [OF cs nn] by simp
  show ?thesis
  proof (cases "\<alpha> = 1")
    case True
    then show ?thesis using T by (simp add: V_def)
  next
    case False
    then have "0 < (1 - \<alpha>)\<^sup>2" by simp
    then have "0 < (1 - \<alpha>)\<^sup>2 * (U * T - a\<^sup>2)" using cs by simp
    then have "b\<^sup>2 < V * T"
      using gram_identity [of \<alpha> U a T] by (simp add: b_def V_def)
    then have "0 < V * T" using zero_le_power2 [of b] by linarith
    then show ?thesis using T by (simp add: zero_less_mult_iff)
  qed
qed

lemma cosine_step_up_strict:
  fixes a T U \<alpha> :: real
  assumes al: "0 < \<alpha>" "\<alpha> \<le> 1" and cs: "a\<^sup>2 < U * T" and nn: "0 \<le> U" "0 \<le> T"
  defines "b \<equiv> (1 - \<alpha>) * a + \<alpha> * T"
  defines "V \<equiv> (1 - \<alpha>)\<^sup>2 * U + 2 * \<alpha> * (1 - \<alpha>) * a + \<alpha>\<^sup>2 * T"
  shows "cosine a U T < cosine b V T"
proof -
  have U: "0 < U" and T: "0 < T" using gram_positive [OF cs nn] by simp_all
  have V: "0 < V" unfolding V_def using cs nn by (rule blend_norm_positive)
  have D: "0 < T * U - a\<^sup>2" using cs by (simp add: mult.commute)
  have id: "b\<^sup>2 * U - a\<^sup>2 * V = \<alpha> * (T * U - a\<^sup>2) * (b + (1 - \<alpha>) * a)"
    unfolding b_def V_def by (rule blend_identity)
  have aT: "0 < \<alpha> * T" using al(1) T by simp
  have "a * sqrt V < b * sqrt U"
  proof (cases "0 \<le> a")
    case True
    then have a1: "0 \<le> (1 - \<alpha>) * a" using al(2) by simp
    then have bpos: "0 < b" using aT by (simp add: b_def)
    then have "0 < b + (1 - \<alpha>) * a" using a1 by simp
    then have "0 < \<alpha> * (T * U - a\<^sup>2) * (b + (1 - \<alpha>) * a)" using al(1) D by simp
    then have "a\<^sup>2 * V < b\<^sup>2 * U" using id by simp
    then show ?thesis using bpos U V by (intro cross_less_pos) simp_all
  next
    case False
    then have an: "a < 0" by simp
    show ?thesis
    proof (cases "0 \<le> b")
      case True
      have "a * sqrt V < 0" using an V by (simp add: mult_less_0_iff)
      moreover have "0 \<le> b * sqrt U" using True U by simp
      ultimately show ?thesis by linarith
    next
      case False
      have "(1 - \<alpha>) * a \<le> 0" using an al(2) by (simp add: mult_nonneg_nonpos)
      then have "b + (1 - \<alpha>) * a < 0" using False by simp
      then have "\<alpha> * (T * U - a\<^sup>2) * (b + (1 - \<alpha>) * a) < 0"
        using al(1) D by (simp add: mult_less_0_iff)
      then have "b\<^sup>2 * U < a\<^sup>2 * V" using id by simp
      then show ?thesis using an U V by (intro cross_less_neg) simp_all
    qed
  qed
  then show ?thesis using cosine_less_iff [OF U V T] by simp
qed

lemma cosine_step_down_strict:
  fixes a T U \<alpha> :: real
  assumes al: "\<alpha> < 0" and cs: "a\<^sup>2 < U * T" and nn: "0 \<le> U" "0 \<le> T"
  defines "b \<equiv> (1 - \<alpha>) * a + \<alpha> * T"
  defines "V \<equiv> (1 - \<alpha>)\<^sup>2 * U + 2 * \<alpha> * (1 - \<alpha>) * a + \<alpha>\<^sup>2 * T"
  shows "cosine b V T < cosine a U T"
proof -
  have U: "0 < U" and T: "0 < T" using gram_positive [OF cs nn] by simp_all
  have V: "0 < V" unfolding V_def using cs nn by (rule blend_norm_positive)
  have D: "0 < T * U - a\<^sup>2" using cs by (simp add: mult.commute)
  have id: "b\<^sup>2 * U - a\<^sup>2 * V = \<alpha> * (T * U - a\<^sup>2) * (b + (1 - \<alpha>) * a)"
    unfolding b_def V_def by (rule blend_identity)
  have aT: "\<alpha> * T < 0" using al T by (simp add: mult_less_0_iff)
  have aD: "\<alpha> * (T * U - a\<^sup>2) < 0" using al D by (simp add: mult_less_0_iff)
  have one: "0 < 1 - \<alpha>" using al by simp
  have "b * sqrt U < a * sqrt V"
  proof (cases "a \<le> 0")
    case True
    then have a1: "(1 - \<alpha>) * a \<le> 0" using one by (simp add: mult_nonneg_nonpos)
    then have bneg: "b < 0" using aT by (simp add: b_def)
    then have "b + (1 - \<alpha>) * a < 0" using a1 by simp
    then have "0 < \<alpha> * (T * U - a\<^sup>2) * (b + (1 - \<alpha>) * a)"
      using aD by (simp add: zero_less_mult_iff)
    then have "a\<^sup>2 * V < b\<^sup>2 * U" using id by simp
    then show ?thesis using bneg U V by (intro cross_less_neg) simp_all
  next
    case False
    then have ap: "0 < a" by simp
    show ?thesis
    proof (cases "b \<le> 0")
      case True
      have "0 < a * sqrt V" using ap V by simp
      moreover have "b * sqrt U \<le> 0" using True U by (simp add: mult_nonpos_nonneg)
      ultimately show ?thesis by linarith
    next
      case False
      have "0 < (1 - \<alpha>) * a" using ap one by simp
      then have "0 < b + (1 - \<alpha>) * a" using False by simp
      then have "\<alpha> * (T * U - a\<^sup>2) * (b + (1 - \<alpha>) * a) < 0"
        using aD by (simp add: mult_less_0_iff)
      then have "b\<^sup>2 * U < a\<^sup>2 * V" using id by simp
      then show ?thesis using ap U V by (intro cross_less_pos) simp_all
    qed
  qed
  then show ?thesis using cosine_less_iff [OF V U T] by simp
qed

lemma abs_less_sqrt_product:
  fixes a U T :: real
  assumes cs: "a\<^sup>2 < U * T" and U: "0 < U" and T: "0 < T"
  shows "- 1 < a / (sqrt U * sqrt T) \<and> a / (sqrt U * sqrt T) < 1"
proof -
  define c where "c = sqrt U * sqrt T"
  have pos: "0 < c" using U T by (simp add: c_def)
  have "c\<^sup>2 = (sqrt U)\<^sup>2 * (sqrt T)\<^sup>2" by (simp only: c_def power_mult_distrib)
  also have "\<dots> = U * T" using U T by simp
  finally have sq: "c\<^sup>2 = U * T" .
  have "\<bar>a\<bar>\<^sup>2 < c\<^sup>2" using cs by (simp only: sq power2_abs)
  moreover have "0 \<le> c" using pos by simp
  ultimately have lt: "\<bar>a\<bar> < c" by (rule power2_less_imp_less)
  have 1: "a < c" using lt by (simp only: abs_less_iff)
  have 2: "- c < a" using lt by (simp only: abs_less_iff) simp
  have 3: "a / c < 1" using 1 pos by (simp only: divide_less_eq_1_pos)
  have "- 1 * c < a" using 2 by simp
  then have 4: "- 1 < a / c" using pos by (simp only: pos_less_divide_eq)
  show ?thesis using 3 4 unfolding c_def by (rule_tac conjI)
qed

lemma cosine_strict_range:
  fixes a U T :: real
  assumes cs: "a\<^sup>2 < U * T" and nn: "0 \<le> U" "0 \<le> T"
  shows "- 1 < cosine a U T \<and> cosine a U T < 1"
proof -
  have U: "0 < U" and T: "0 < T" using gram_positive [OF cs nn] by simp_all
  have "cosine a U T = a / (sqrt U * sqrt T)" using U T by (simp add: cosine_def)
  then show ?thesis using abs_less_sqrt_product [OF cs U T] by simp
qed

lemma scaled_gram_eq:
  fixes d V T c :: real
  assumes "0 < c"
  shows "(d / c)\<^sup>2 = V / c / c * T \<longleftrightarrow> d\<^sup>2 = V * T"
proof -
  have c2: "c\<^sup>2 \<noteq> 0" using assms by simp
  have l: "(d / c)\<^sup>2 = d\<^sup>2 / c\<^sup>2" by (simp only: power_divide)
  have r: "V / c / c * T = (V * T) / c\<^sup>2" by (simp add: power2_eq_square)
  have "d\<^sup>2 / c\<^sup>2 = (V * T) / c\<^sup>2 \<longleftrightarrow> d\<^sup>2 = V * T"
    using c2 by (rule_tac iffI) (simp_all only: divide_cancel_right, simp_all)
  then show ?thesis by (simp only: l r)
qed

lemma parallel_scale:
  assumes "0 < c"
  shows "parallel (map (\<lambda>x. x / c) v) t = parallel v t"
proof -
  have d: "np_dot (map (\<lambda>x. x / c) v) t = np_dot v t / c" by (rule np_dot_scale)
  have "np_dot (map (\<lambda>x. x / c) v) (map (\<lambda>x. x / c) v) = np_dot v (map (\<lambda>x. x / c) v) / c"
    by (rule np_dot_scale)
  also have "np_dot v (map (\<lambda>x. x / c) v) = np_dot (map (\<lambda>x. x / c) v) v"
    by (rule np_dot_commute)
  also have "\<dots> = np_dot v v / c" by (rule np_dot_scale)
  finally have n: "np_dot (map (\<lambda>x. x / c) v) (map (\<lambda>x. x / c) v) = np_dot v v / c / c" .
  show ?thesis
    unfolding parallel_def d n using assms by (rule scaled_gram_eq)
qed

lemma update_embedding_blend:
  assumes len: "length u = length t"
  shows "\<exists>u'. update_embedding u t weight lr = Inr u' \<and> length u' = length t \<and>
           similarity u' t = similarity (map2 (\<lambda>c t. c + lr * weight * (t - c)) u t) t \<and>
           parallel u' t = parallel (map2 (\<lambda>c t. c + lr * weight * (t - c)) u t) t"
proof -
  define updated where "updated = map2 (\<lambda>c t. c + lr * weight * (t - c)) u t"
  show ?thesis
  proof (cases "linalg_norm updated > 1")
    case True
    then have "update_embedding u t weight lr = Inr (map (\<lambda>x. x / linalg_norm updated) updated)"
      using len by (simp add: update_embedding_same_length updated_def Let_def)
    moreover have "similarity (map (\<lambda>x. x / linalg_norm updated) updated) t = similarity updated t"
      using True by (intro similarity_scale) simp
    moreover have "parallel (map (\<lambda>x. x / linalg_norm updated) updated) t = parallel updated t"
      using True by (intro parallel_scale) simp
    moreover have "length updated = length t" using len by (simp add: updated_def)
    ultimately show ?thesis unfolding updated_def [symmetric] by simp
  next
    case False
    then have "update_embedding u t weight lr = Inr updated"
      using len by (simp add: update_embedding_same_length updated_def Let_def)
    moreover have "length updated = length t" using len by (simp add: updated_def)
    ultimately show ?thesis unfolding updated_def [symmetric] by simp
  qed
qed

lemma blend_cosine_strict:
  fixes \<alpha> :: real and u t :: "real list"
  assumes len: "length u = length t"
  defines "v \<equiv> map2 (\<lambda>c t. c + \<alpha> * (t - c)) u t"
  shows "(0 < \<alpha> \<and> \<alpha> \<le> 1 \<and> \<not> parallel u t \<longrightarrow>
            cosine (np_dot u t) (np_dot u u) (np_dot t t) < cosine (np_dot v t) (np_dot v v) (np_dot t t)) \<and>
         (\<alpha> < 0 \<and> \<not> parallel u t \<longrightarrow>
            cosine (np_dot v t) (np_dot v v) (np_dot t t) < cosine (np_dot u t) (np_dot u u) (np_dot t t)) \<and>
         (parallel v t \<longleftrightarrow> \<alpha> = 1 \<or> parallel u t) \<and>
         (\<alpha> = 1 \<and> \<not> parallel u t \<longrightarrow> cosine (np_dot v t) (np_dot v v) (np_dot t t) = 1) \<and>
         (\<not> parallel u t \<longrightarrow> - 1 < cosine (np_dot u t) (np_dot u u) (np_dot t t) \<and>
              cosine (np_dot u t) (np_dot u u) (np_dot t t) < 1)"
proof -
  have b: "np_dot v t = (1 - \<alpha>) * np_dot u t + \<alpha> * np_dot t t"
    unfolding v_def using len by (rule np_dot_blend)
  have V: "np_dot v v = (1 - \<alpha>)\<^sup>2 * np_dot u u + 2 * \<alpha> * (1 - \<alpha>) * np_dot u t + \<alpha>\<^sup>2 * np_dot t t"
    using sumsq_blend [OF len, of \<alpha>] by (simp add: v_def np_dot_self)
  have cs: "(np_dot u t)\<^sup>2 \<le> np_dot u u * np_dot t t"
    using cauchy_schwarz_list [OF len] by (simp add: np_dot_self)
  have np: "(np_dot u t)\<^sup>2 < np_dot u u * np_dot t t" if "\<not> parallel u t"
    using that cs by (simp add: parallel_def)
  have gram: "np_dot v v * np_dot t t - (np_dot v t)\<^sup>2
      = (1 - \<alpha>)\<^sup>2 * (np_dot u u * np_dot t t - (np_dot u t)\<^sup>2)"
    unfolding b V by (rule gram_identity)
  have par: "parallel v t \<longleftrightarrow> \<alpha> = 1 \<or> parallel u t"
  proof -
    have "parallel v t \<longleftrightarrow> np_dot v v * np_dot t t - (np_dot v t)\<^sup>2 = 0"
      by (auto simp: parallel_def)
    also have "\<dots> \<longleftrightarrow> (1 - \<alpha>)\<^sup>2 * (np_dot u u * np_dot t t - (np_dot u t)\<^sup>2) = 0"
      by (simp only: gram)
    also have "\<dots> \<longleftrightarrow> \<alpha> = 1 \<or> parallel u t"
      by (auto simp: parallel_def)
    finally show ?thesis .
  qed
  have up: "cosine (np_dot u t) (np_dot u u) (np_dot t t) < cosine (np_dot v t) (np_dot v v) (np_dot t t)"
    if "0 < \<alpha>" "\<alpha> \<le> 1" "\<not> parallel u t"
    unfolding b V
    using that(1,2) np [OF that(3)] np_dot_nonneg np_dot_nonneg by (rule cosine_step_up_strict)
  have down: "cosine (np_dot v t) (np_dot v v) (np_dot t t) < cosine (np_dot u t) (np_dot u u) (np_dot t t)"
    if "\<alpha> < 0" "\<not> parallel u t"
    unfolding b V
    using that(1) np [OF that(2)] np_dot_nonneg np_dot_nonneg by (rule cosine_step_down_strict)
  have conv: "cosine (np_dot v t) (np_dot v v) (np_dot t t) = 1" if "\<alpha> = 1" "\<not> parallel u t"
  proof -
    have T: "0 < np_dot t t"
      using gram_positive [OF np [OF that(2)] np_dot_nonneg np_dot_nonneg] by simp
    have "np_dot v t = np_dot t t" "np_dot v v = np_dot t t"
      using that(1) by (simp_all add: b V)
    then show ?thesis using T by (simp add: cosine_def)
  qed
  have rng: "- 1 < cosine (np_dot u t) (np_dot u u) (np_dot t t) \<and>
              cosine (np_dot u t) (np_dot u u) (np_dot t t) < 1" if "\<not> parallel u t"
    using np [OF that] np_dot_nonneg np_dot_nonneg by (rule cosine_strict_range)
  show ?thesis using par up down conv rng by blast
qed

lemma update_embedding_step_strict:
  assumes len: "length u = length t"
  shows "\<exists>u' s s'. update_embedding u t weight lr = Inr u' \<and> length u' = length t \<and>
           similarity u t = Inr s \<and> similarity u' t = Inr s' \<and>
           (0 \<le> lr * weight \<and> lr * weight \<le> 1 \<longrightarrow> s \<le> s') \<and>
           (0 < lr * weight \<and> lr * weight \<le> 1 \<and> \<not> parallel u t \<longrightarrow> s < s') \<and>
           (lr * weight \<le> 0 \<longrightarrow> s' \<le> s) \<and>
           (lr * weight < 0 \<and> \<not> parallel u t \<longrightarrow> s' < s) \<and>
           (parallel u' t \<longleftrightarrow> lr * weight = 1 \<or> parallel u t) \<and>
           (lr * weight = 1 \<and> \<not> parallel u t \<longrightarrow> s' = 1) \<and>
           (\<not> parallel u t \<longrightarrow> - 1 < s \<and> s < 1)"
proof -
  define v where "v = map2 (\<lambda>c t. c + lr * weight * (t - c)) u t"
  define s where "s = cosine (np_dot u t) (np_dot u u) (np_dot t t)"
  define s' where "s' = cosine (np_dot v t) (np_dot v v) (np_dot t t)"
  have lv: "length v = length t" using len by (simp add: v_def)
  obtain u' where u': "update_embedding u t weight lr = Inr u'" "length u' = length t"
      "similarity u' t = similarity v t" "parallel u' t = parallel v t"
    using update_embedding_blend [OF len, of weight lr] unfolding v_def by blast
  have su: "similarity u t = Inr s"
    unfolding s_def using len by (rule similarity_cosine_form)
  have sv: "similarity u' t = Inr s'"
    unfolding s'_def using u'(3) lv by (simp add: similarity_cosine_form)
  have weak: "(0 \<le> lr * weight \<and> lr * weight \<le> 1 \<longrightarrow> s \<le> s') \<and> (lr * weight \<le> 0 \<longrightarrow> s' \<le> s)"
    unfolding s_def s'_def v_def using len by (rule blend_cosine)
  have strict: "(0 < lr * weight \<and> lr * weight \<le> 1 \<and> \<not> parallel u t \<longrightarrow> s < s') \<and>
         (lr * weight < 0 \<and> \<not> parallel u t \<longrightarrow> s' < s) \<and>
         (parallel v t \<longleftrightarrow> lr * weight = 1 \<or> parallel u t) \<and>
         (lr * weight = 1 \<and> \<not> parallel u t \<longrightarrow> s' = 1) \<and>
         (\<not> parallel u t \<longrightarrow> - 1 < s \<and> s < 1)"
    unfolding s_def s'_def v_def using len by (rule blend_cosine_strict)
  have par: "parallel u' t \<longleftrightarrow> lr * weight = 1 \<or> parallel u t"
    using strict u'(4) by simp
  show ?thesis
    using u'(1,2) su sv weak strict par by blast
qed

lemma repeated_update_parallel:
  assumes len: "length u = length t" and ne: "lr * weight \<noteq> 1"
  shows "\<exists>v. repeated_update n u t weight lr = Inr v \<and> length v = length t \<and>
           parallel v t = parallel u t"
proof (induction n)
  case 0
  then show ?case using len by simp
next
  case (Suc n)
  then obtain v where v: "repeated_update n u t weight lr = Inr v" "length v = length t"
      "parallel v t = parallel u t"
    by blast
  obtain v' where v': "update_embedding v t weight lr = Inr v'" "length v' = length t"
      "parallel v' t \<longleftrightarrow> lr * weight = 1 \<or> parallel v t"
    using update_embedding_step_strict [OF v(2), of weight lr] by blast
  have "repeated_update (Suc n) u t weight lr = Inr v'"
    using v(1) v'(1) by (simp add: rbind_def)
  moreover have "parallel v' t = parallel u t" using v'(3) ne v(3) by simp
  ultimately show ?case using v'(2) by blast
qed


section \<open>C8: repeated updates and similarity\<close>

text \<open>
  C8, as amended. For vectors of one length every \<open>update_embedding\<close> step toward \<open>t\<close>
  returns a vector. With \<open>0 < lr * weight \<le> 1\<close> the step strictly increases the
  similarity to \<open>t\<close> as long as the current vector is not parallel to \<open>t\<close>, and never
  decreases it; with \<open>lr * weight < 0\<close> it strictly decreases the similarity as long as
  the current vector is not parallel to \<open>t\<close>, and never increases it. For
  \<open>lr * weight \<noteq> 1\<close> the iterates of a vector that is not parallel to \<open>t\<close> never
  become parallel to \<open>t\<close>, so every step moves the similarity; for \<open>lr * weight = 1\<close>
  one step reaches similarity 1 and the vector stays parallel to \<open>t\<close>. A vector that is
  not parallel to \<open>t\<close> has similarity strictly between -1 and 1. Every weight of
  \<open>ACTION_WEIGHTS\<close> with \<open>LEARNING_RATE\<close> falls under one of the two cases
  (\<open>action_weights_range\<close>). Stated over the reals.
\<close>

theorem repeated_update_monotone:
  assumes "length u = length t"
  shows "\<exists>v v' s s'. repeated_update n u t weight lr = Inr v \<and>
           repeated_update (Suc n) u t weight lr = Inr v' \<and>
           similarity v t = Inr s \<and> similarity v' t = Inr s' \<and>
           (0 \<le> lr * weight \<and> lr * weight \<le> 1 \<longrightarrow> s \<le> s') \<and>
           (0 < lr * weight \<and> lr * weight \<le> 1 \<and> \<not> parallel v t \<longrightarrow> s < s') \<and>
           (lr * weight \<le> 0 \<longrightarrow> s' \<le> s) \<and>
           (lr * weight < 0 \<and> \<not> parallel v t \<longrightarrow> s' < s) \<and>
           (lr * weight \<noteq> 1 \<longrightarrow> parallel v t = parallel u t) \<and>
           (lr * weight = 1 \<longrightarrow> parallel v' t) \<and>
           (lr * weight = 1 \<and> \<not> parallel v t \<longrightarrow> s' = 1) \<and>
           (\<not> parallel v t \<longrightarrow> - 1 < s \<and> s < 1)"
proof -
  obtain v where v: "repeated_update n u t weight lr = Inr v" "length v = length t"
    using repeated_update_length [OF assms] by blast
  have keep: "parallel v t = parallel u t" if "lr * weight \<noteq> 1"
    using repeated_update_parallel [OF assms that, of n] v(1) by simp
  obtain v' s s' where st: "update_embedding v t weight lr = Inr v'"
      "similarity v t = Inr s" "similarity v' t = Inr s'"
      "0 \<le> lr * weight \<and> lr * weight \<le> 1 \<longrightarrow> s \<le> s'"
      "0 < lr * weight \<and> lr * weight \<le> 1 \<and> \<not> parallel v t \<longrightarrow> s < s'"
      "lr * weight \<le> 0 \<longrightarrow> s' \<le> s"
      "lr * weight < 0 \<and> \<not> parallel v t \<longrightarrow> s' < s"
      "parallel v' t \<longleftrightarrow> lr * weight = 1 \<or> parallel v t"
      "lr * weight = 1 \<and> \<not> parallel v t \<longrightarrow> s' = 1"
      "\<not> parallel v t \<longrightarrow> - 1 < s \<and> s < 1"
    using update_embedding_step_strict [OF v(2), of weight lr] by blast
  have next_step: "repeated_update (Suc n) u t weight lr = Inr v'"
    using v(1) st(1) by (simp add: rbind_def)
  have conv: "lr * weight = 1 \<longrightarrow> parallel v' t" using st(8) by simp
  show ?thesis
    using v(1) next_step st(2-7) keep conv st(9,10) by blast
qed

theorem repeated_update_monotone_witness:
  "length [1, 0 :: real] = length [0, 1 :: real] \<and> \<not> parallel [1, 0] [0, 1] \<and>
   (\<exists>v v' s s'. repeated_update 3 [1, 0] [0, 1] 1 (1 / 10) = Inr v \<and>
           repeated_update (Suc 3) [1, 0] [0, 1] 1 (1 / 10) = Inr v' \<and>
           similarity v [0, 1] = Inr s \<and> similarity v' [0, 1] = Inr s' \<and>
           \<not> parallel v [0, 1] \<and> - 1 < s \<and> s < s') \<and>
   (\<exists>v v' s s'. repeated_update 3 [1, 0] [0, 1] (- 1) (1 / 10) = Inr v \<and>
           repeated_update (Suc 3) [1, 0] [0, 1] (- 1) (1 / 10) = Inr v' \<and>
           similarity v [0, 1] = Inr s \<and> similarity v' [0, 1] = Inr s' \<and> s' < s)"
proof -
  have np: "\<not> parallel [1, 0] [0, 1]" by (simp add: parallel_def np_dot_def)
  have up: "\<exists>v v' s s'. repeated_update 3 [1, 0] [0, 1] 1 (1 / 10) = Inr v \<and>
           repeated_update (Suc 3) [1, 0] [0, 1] 1 (1 / 10) = Inr v' \<and>
           similarity v [0, 1] = Inr s \<and> similarity v' [0, 1] = Inr s' \<and>
           \<not> parallel v [0, 1] \<and> - 1 < s \<and> s < s'"
    using repeated_update_monotone [of "[1, 0]" "[0, 1]" 3 1 "1 / 10"] np by auto
  have down: "\<exists>v v' s s'. repeated_update 3 [1, 0] [0, 1] (- 1) (1 / 10) = Inr v \<and>
           repeated_update (Suc 3) [1, 0] [0, 1] (- 1) (1 / 10) = Inr v' \<and>
           similarity v [0, 1] = Inr s \<and> similarity v' [0, 1] = Inr s' \<and> s' < s"
    using repeated_update_monotone [of "[1, 0]" "[0, 1]" 3 "- 1" "1 / 10"] np by auto
  show ?thesis using np up down by simp
qed

text \<open>
  C8 as stated fails for \<open>lr * weight > 1\<close>: with the weight of SHARE (1.5) and
  \<open>lr = 0.8\<close> one step takes the unit vector \<open>(0.6, 0.8, 0, \<dots>)\<close> past the target
  \<open>(0.1, 0, \<dots>)\<close> to \<open>(0, -0.16, 0, \<dots>)\<close>, and the similarity drops from 0.6 to 0.
  And \<open>u \<noteq> t\<close> is not enough for an increase: from \<open>u = - t\<close> with \<open>lr * weight = 0.1\<close>
  the step returns \<open>- 0.8 t\<close> and the similarity stays at -1.
\<close>

theorem overshoot_counterexample:
  "update_embedding ([6 / 10, 8 / 10] @ replicate 62 0) ([1 / 10, 0] @ replicate 62 0) (15 / 10) (8 / 10)
     = Inr ([0, - (16 / 100)] @ replicate 62 0) \<and>
   similarity ([6 / 10, 8 / 10] @ replicate 62 0) ([1 / 10, 0] @ replicate 62 0) = Inr (6 / 10) \<and>
   similarity ([0, - (16 / 100)] @ replicate 62 0) ([1 / 10, 0] @ replicate 62 0) = Inr 0 \<and>
   ACTION_WEIGHTS 2 = Some (15 / 10) \<and>
   update_embedding [- 1, 0] [1, 0] 1 (1 / 10) = Inr [- (8 / 10), 0] \<and>
   similarity [- 1, 0] [1, 0] = Inr (- 1) \<and>
   similarity [- (8 / 10), 0] [1, 0] = Inr (- 1)"
proof (intro conjI)
  show "update_embedding ([6 / 10, 8 / 10] @ replicate 62 0) ([1 / 10, 0] @ replicate 62 0) (15 / 10) (8 / 10)
     = Inr ([0, - (16 / 100)] @ replicate 62 0)"
    by (simp add: update_embedding_same_length linalg_norm_def Let_def sum_list_replicate)
  show "similarity ([6 / 10, 8 / 10] @ replicate 62 0) ([1 / 10, 0] @ replicate 62 0) = Inr (6 / 10)"
    by (simp add: similarity_def linalg_norm_def np_dot_def sqrt_hundredth Let_def sum_list_replicate)
  show "similarity ([0, - (16 / 100)] @ replicate 62 0) ([1 / 10, 0] @ replicate 62 0) = Inr 0"
    by (simp add: similarity_def linalg_norm_def np_dot_def Let_def sum_list_replicate)
  show "ACTION_WEIGHTS 2 = Some (15 / 10)"
    by (simp add: ACTION_WEIGHTS_def)
  have n: "sqrt (16 / 25) = 4 / 5"
  proof -
    have "sqrt ((4 / 5)\<^sup>2) = 4 / 5" by simp
    then show ?thesis by (simp add: power2_eq_square)
  qed
  show "update_embedding [- 1, 0] [1, 0] 1 (1 / 10) = Inr [- (8 / 10), 0]"
    by (simp add: update_embedding_same_length linalg_norm_def Let_def n)
  show "similarity [- 1, 0] [1, 0] = Inr (- 1)"
    by (simp add: similarity_def linalg_norm_def np_dot_def Let_def)
  show "similarity [- (8 / 10), 0] [1, 0] = Inr (- 1)"
    by (simp add: similarity_def linalg_norm_def np_dot_def Let_def n)
qed

section \<open>C5: saving an embedding\<close>

text \<open>
  C5, as amended. \<open>save_user_embedding\<close> and \<open>save_content_embedding\<close> never raise.
  When the store accepts the write, the store and then the cache hold the new vector
  and, with a positive TTL, the next read returns it from the cache. When the store
  rejects the write, the state is what it was: the cache is not updated.
\<close>

theorem save_embedding_write_through:
  "(if db_fails st (PutItem USER_EMBEDDINGS (PStr user_id))
    then save_user_embedding st user_id embedding = st
    else db_user_embeddings (save_user_embedding st user_id embedding) user_id = Some embedding \<and>
         cache_user_emb (save_user_embedding st user_id embedding) user_id
           = Some (embedding, clock st) \<and>
         (0 < cache_ttl st \<longrightarrow>
            get_user_embedding L (save_user_embedding st user_id embedding) user_id
              = (embedding, save_user_embedding st user_id embedding))) \<and>
   (if db_fails st (PutItem CONTENT_EMBEDDINGS content_id)
    then save_content_embedding st content_id embedding = st
    else db_content_embeddings (save_content_embedding st content_id embedding) content_id
           = Some embedding \<and>
         cache_content_emb (save_content_embedding st content_id embedding) (py_str content_id)
           = Some (embedding, clock st) \<and>
         (0 < cache_ttl st \<longrightarrow>
            get_content_embedding L (save_content_embedding st content_id embedding) content_id content
              = (Inr embedding, save_content_embedding st content_id embedding)))"
  by (simp add: save_user_embedding_def save_content_embedding_def get_user_embedding_def
        get_content_embedding_def cache_read_def)

theorem save_embedding_write_through_witness:
  "get_user_embedding example_lib (save_user_embedding (fresh_server 0) ''u1'' [1, 0]) ''u1''
     = ([1, 0], save_user_embedding (fresh_server 0) ''u1'' [1, 0]) \<and>
   save_user_embedding ((fresh_server (0 :: nat))\<lparr>db_fails := (\<lambda>r. True)\<rparr>) ''u1'' [1, 0]
     = (fresh_server 0)\<lparr>db_fails := (\<lambda>r. True)\<rparr>"
proof -
  have up: "\<not> db_fails (fresh_server (0 :: nat)) r" for r
    by (simp add: fresh_server_def)
  have ttl: "0 < cache_ttl (fresh_server (0 :: nat))"
    by (simp add: fresh_server_def)
  show ?thesis
    using save_embedding_write_through
            [of "fresh_server 0" "''u1''" "[1, 0]" example_lib "PStr ''c1''" None]
          save_embedding_write_through
            [of "(fresh_server 0)\<lparr>db_fails := (\<lambda>r. True)\<rparr>" "''u1''" "[1, 0]"
                example_lib "PStr ''c1''" None]
          up ttl
    by simp
qed

text \<open>
  C5 as stated fails where the write is rejected: the cache update follows \<open>put_item\<close>
  inside the same \<open>try\<close> block, so the cache of a server whose store is down holds
  nothing for the key after the save.
\<close>

theorem failed_write_skips_cache:
  "cache_user_emb
     (save_user_embedding ((fresh_server (0 :: nat))\<lparr>db_fails := (\<lambda>r. True)\<rparr>) ''u1'' [1, 0]) ''u1''
     = None \<and>
   cache_content_emb
     (save_content_embedding ((fresh_server (0 :: nat))\<lparr>db_fails := (\<lambda>r. True)\<rparr>) (PStr ''c1'') [1, 0]) ''c1''
     = None"
  by (simp add: save_user_embedding_def save_content_embedding_def fresh_server_def)

lemma randn_vec_length: "length (fst (randn_vec draw n g)) = n"
  by (induction n arbitrary: g) (simp_all add: split_beta Let_def)

lemma create_random_embedding_length:
  "length (fst (create_random_embedding L g)) = EMBEDDING_DIM"
  by (simp add: create_random_embedding_def split_beta randn_vec_length)

lemma create_random_embedding_nth:
  assumes "i < EMBEDDING_DIM"
  shows "fst (create_random_embedding L g) ! i
       = fst (randn_vec (np_randn L) EMBEDDING_DIM g) ! i * sqrt (2 / real EMBEDDING_DIM)"
  using assms by (simp add: create_random_embedding_def split_beta randn_vec_length)

lemma get_user_embedding_create:
  assumes "cache_read st (cache_user_emb st user_id) = None"
    and "db_fails st (GetItem USER_EMBEDDINGS (PStr user_id)) \<or> db_user_embeddings st user_id = None"
  shows "fst (get_user_embedding L st user_id) = fst (create_random_embedding L (rng st))"
  using assms by (auto simp: get_user_embedding_def split_beta)

lemma get_user_embedding_again:
  assumes "\<not> db_fails st (PutItem USER_EMBEDDINGS (PStr user_id))"
    and "\<not> db_fails st (GetItem USER_EMBEDDINGS (PStr user_id))"
  shows "fst (get_user_embedding L (snd (get_user_embedding L st user_id)) user_id)
       = fst (get_user_embedding L st user_id)"
  using assms
  by (auto simp: get_user_embedding_def save_user_embedding_def cache_read_def split_beta
           split: option.splits if_splits)

lemma randn_vec_example: "randn_vec (np_randn example_lib) n g = (map real [g..<g + n], g + n)"
proof (induction n arbitrary: g)
  case 0
  then show ?case by simp
next
  case (Suc n)
  have "[g..<g + Suc n] = g # [Suc g..<Suc g + n]"
    by (simp add: upt_conv_Cons)
  then show ?case using Suc [of "Suc g"] by (simp add: example_lib_def)
qed

lemma create_random_embedding_example:
  "create_random_embedding example_lib g
     = (map (\<lambda>x. x * sqrt (2 / real EMBEDDING_DIM)) (map real [g..<g + EMBEDDING_DIM]), g + EMBEDDING_DIM)"
  by (simp add: create_random_embedding_def randn_vec_example)


section \<open>C3: the initial vector\<close>

text \<open>
  C3, as amended. \<open>create_random_embedding\<close> takes no seed key: it returns the next 64
  normal draws of the process-wide generator, each multiplied by \<open>sqrt (2 / 64)\<close>. On
  the create path of \<open>get_user_embedding\<close> (nothing fresh in the cache, nothing read
  from the store) the vector is that function of the generator state alone, whatever
  the user id. While the store accepts reads and writes, a second call for the same
  user returns the vector of the first.
\<close>

theorem random_init_ignores_key:
  "length (fst (create_random_embedding L g)) = EMBEDDING_DIM \<and>
   (\<forall>i < EMBEDDING_DIM.
      fst (create_random_embedding L g) ! i
        = fst (randn_vec (np_randn L) EMBEDDING_DIM g) ! i * sqrt (2 / real EMBEDDING_DIM)) \<and>
   (cache_read st (cache_user_emb st user_id) = None \<and>
    (db_fails st (GetItem USER_EMBEDDINGS (PStr user_id)) \<or> db_user_embeddings st user_id = None)
      \<longrightarrow> fst (get_user_embedding L st user_id) = fst (create_random_embedding L (rng st))) \<and>
   (\<not> db_fails st (PutItem USER_EMBEDDINGS (PStr user_id)) \<and>
    \<not> db_fails st (GetItem USER_EMBEDDINGS (PStr user_id))
      \<longrightarrow> fst (get_user_embedding L (snd (get_user_embedding L st user_id)) user_id)
            = fst (get_user_embedding L st user_id))"
proof (intro conjI allI impI)
  show "length (fst (create_random_embedding L g)) = EMBEDDING_DIM"
    by (rule create_random_embedding_length)
next
  fix i assume "i < EMBEDDING_DIM"
  then show "fst (create_random_embedding L g) ! i
        = fst (randn_vec (np_randn L) EMBEDDING_DIM g) ! i * sqrt (2 / real EMBEDDING_DIM)"
    by (rule create_random_embedding_nth)
next
  assume "cache_read st (cache_user_emb st user_id) = None \<and>
    (db_fails st (GetItem USER_EMBEDDINGS (PStr user_id)) \<or> db_user_embeddings st user_id = None)"
  then show "fst (get_user_embedding L st user_id) = fst (create_random_embedding L (rng st))"
    by (intro get_user_embedding_create) simp_all
next
  assume "\<not> db_fails st (PutItem USER_EMBEDDINGS (PStr user_id)) \<and>
    \<not> db_fails st (GetItem USER_EMBEDDINGS (PStr user_id))"
  then show "fst (get_user_embedding L (snd (get_user_embedding L st user_id)) user_id)
            = fst (get_user_embedding L st user_id)"
    by (intro get_user_embedding_again) simp_all
qed

theorem random_init_ignores_key_witness:
  "length (fst (create_random_embedding example_lib 0)) = EMBEDDING_DIM \<and>
   fst (get_user_embedding example_lib (fresh_server 0) ''u1'')
     = fst (create_random_embedding example_lib 0) \<and>
   fst (get_user_embedding example_lib (snd (get_user_embedding example_lib (fresh_server 0) ''u1'')) ''u1'')
     = fst (get_user_embedding example_lib (fresh_server 0) ''u1'')"
proof -
  have "cache_read (fresh_server (0 :: nat)) (cache_user_emb (fresh_server 0) ''u1'') = None"
       "db_user_embeddings (fresh_server (0 :: nat)) ''u1'' = None"
       "\<not> db_fails (fresh_server (0 :: nat)) r" "rng (fresh_server (0 :: nat)) = 0" for r
    by (simp_all add: fresh_server_def cache_read_def)
  then show ?thesis
    using random_init_ignores_key [of example_lib 0 "fresh_server 0" "''u1''"] by metis
qed

text \<open>
  C3 as stated fails in both directions. With the store down nothing is persisted,
  and two calls with the same user id return different vectors (the generator has
  moved on); from one generator state, as after each restart, two different user ids
  get the same vector.
\<close>

theorem same_key_different_vectors:
  "fst (get_user_embedding example_lib ((fresh_server 0)\<lparr>db_fails := (\<lambda>r. True)\<rparr>) ''u1'')
     \<noteq> fst (get_user_embedding example_lib
              (snd (get_user_embedding example_lib ((fresh_server 0)\<lparr>db_fails := (\<lambda>r. True)\<rparr>) ''u1''))
              ''u1'') \<and>
   fst (get_user_embedding example_lib (fresh_server 0) ''u1'')
     = fst (get_user_embedding example_lib (fresh_server 0) ''u2'')"
proof
  let ?st = "(fresh_server (0 :: nat))\<lparr>db_fails := (\<lambda>r. True)\<rparr>"
  have first: "get_user_embedding example_lib ?st ''u1''
      = (map (\<lambda>x. x * sqrt (2 / real EMBEDDING_DIM)) (map real [0..<EMBEDDING_DIM]), ?st\<lparr>rng := EMBEDDING_DIM\<rparr>)"
    by (simp add: get_user_embedding_def cache_read_def fresh_server_def
          create_random_embedding_example save_user_embedding_def)
  have second: "get_user_embedding example_lib (?st\<lparr>rng := EMBEDDING_DIM\<rparr>) ''u1''
      = (map (\<lambda>x. x * sqrt (2 / real EMBEDDING_DIM)) (map real [EMBEDDING_DIM..<EMBEDDING_DIM + EMBEDDING_DIM]),
         ?st\<lparr>rng := EMBEDDING_DIM + EMBEDDING_DIM\<rparr>)"
    by (simp add: get_user_embedding_def cache_read_def fresh_server_def
          create_random_embedding_example save_user_embedding_def)
  have "map (\<lambda>x. x * sqrt (2 / real EMBEDDING_DIM)) (map real [0..<EMBEDDING_DIM]) ! 0
      \<noteq> map (\<lambda>x. x * sqrt (2 / real EMBEDDING_DIM)) (map real [EMBEDDING_DIM..<EMBEDDING_DIM + EMBEDDING_DIM]) ! 0"
    by (simp add: EMBEDDING_DIM_def)
  then have "map (\<lambda>x. x * sqrt (2 / real EMBEDDING_DIM)) (map real [0..<EMBEDDING_DIM])
      \<noteq> map (\<lambda>x. x * sqrt (2 / real EMBEDDING_DIM)) (map real [EMBEDDING_DIM..<EMBEDDING_DIM + EMBEDDING_DIM])"
    by metis
  then show "fst (get_user_embedding example_lib ?st ''u1'')
     \<noteq> fst (get_user_embedding example_lib (snd (get_user_embedding example_lib ?st ''u1'')) ''u1'')"
    by (simp add: first second)
next
  show "fst (get_user_embedding example_lib (fresh_server 0) ''u1'')
     = fst (get_user_embedding example_lib (fresh_server 0) ''u2'')"
    by (simp add: get_user_embedding_def cache_read_def fresh_server_def split_beta)
qed

section \<open>Facts about the content features\<close>

lemma py_truediv_ok:
  assumes "float_ok a b" "b \<noteq> 0"
  shows "py_truediv a b = Inr (real_of_int a / real_of_int b)"
  using assms by (simp add: py_truediv_def)

lemma features_fit_get:
  assumes "features_fit content"
  shows "\<exists>likes views comments shares.
           get_likes content = Inr likes \<and> get_views content = Inr views \<and>
           get_comments content = Inr comments \<and> get_shares content = Inr shares \<and>
           float_ok likes 1000 \<and> float_ok views 10000 \<and> float_ok comments 100 \<and>
           float_ok shares 50 \<and> float_ok (likes + comments * 2 + shares * 3) (max views 1)"
  using assms by (auto simp: features_fit_def split: sum.splits)


lemma fold_update_nth:
  "fold (\<lambda>i e. e[i := f i]) js e ! j = (if j \<in> set js \<and> j < length e then f j else e ! j)"
proof (induction js arbitrary: e)
  case Nil
  then show ?case by simp
next
  case (Cons a js)
  show ?case
  proof (cases "a < length e")
    case True
    then show ?thesis by (auto simp: Cons.IH nth_list_update)
  next
    case False
    then have "e[a := f a] = e" by (simp add: list_update_beyond)
    then show ?thesis using False by (auto simp: Cons.IH)
  qed
qed

lemma fold_update_length: "length (fold (\<lambda>i e. e[i := f i]) js e) = length e"
  by (induction js arbitrary: e) simp_all

lemma hash_fill_length: "length (hash_fill h e) = length e"
  by (simp add: hash_fill_def fold_update_length)

lemma hash_fill_nth:
  "hash_fill h e ! j =
     (if 30 \<le> j \<and> j < EMBEDDING_DIM \<and> j < length e
      then real ((h div 2 ^ (j - 30)) mod 256) / 255 else e ! j)"
  by (simp add: hash_fill_def fold_update_nth)

lemma byte_feature_range: "0 \<le> real (x mod 256) / 255 \<and> real (x mod 256) / 255 \<le> 1"
proof -
  have "x mod 256 < 256" by simp
  then have "real (x mod 256) \<le> 255" by linarith
  then show ?thesis by simp
qed

lemma create_content_embedding_features:
  assumes g: "get_likes content = Inr likes" "get_views content = Inr views"
      "get_comments content = Inr comments" "get_shares content = Inr shares"
    and f: "float_ok likes 1000" "float_ok views 10000" "float_ok comments 100"
      "float_ok shares 50" "float_ok (likes + comments * 2 + shares * 3) (max views 1)"
    and idok: "id_ok content"
  shows "\<exists>e. create_content_embedding L now content = Inr e \<and> length e = EMBEDDING_DIM \<and>
           e ! 0 = min (real_of_int likes / 1000) 1 \<and>
           e ! 1 = min (real_of_int views / 10000) 1 \<and>
           e ! 2 = min (real_of_int comments / 100) 1 \<and>
           e ! 3 = min (real_of_int shares / 50) 1 \<and>
           e ! 4 = real_of_int (likes + comments * 2 + shares * 3) / real_of_int (max views 1) \<and>
           (case record_created L content of
              None \<Rightarrow> e ! 5 = 0 \<and> e ! 6 = 0 \<and> e ! 7 = 0
            | Some d \<Rightarrow> e ! 5 = max 0 (1 - hours_old now d / 168) \<and>
                        e ! 6 = real (dt_hour d) / 24 \<and> e ! 7 = real (dt_weekday d) / 7) \<and>
           e ! 8 = 0 \<and> e ! 9 = 0 \<and>
           (\<forall>i. 10 \<le> i \<and> i < 15 \<longrightarrow> e ! i = 0 \<or> e ! i = 1) \<and>
           (\<forall>i. 15 \<le> i \<and> i < 30 \<longrightarrow> e ! i = 0) \<and>
           (\<forall>i. 30 \<le> i \<and> i < EMBEDDING_DIM \<longrightarrow> 0 \<le> e ! i \<and> e ! i \<le> 1)"
proof -
  define e1 where "e1 = (replicate EMBEDDING_DIM (0 :: real))
             [0 := min (real_of_int likes / 1000) 1,
              1 := min (real_of_int views / 10000) 1,
              2 := min (real_of_int comments / 100) 1,
              3 := min (real_of_int shares / 50) 1,
              4 := real_of_int (likes + comments * 2 + shares * 3) / real_of_int (max views 1)]"
  define created_at where "created_at = py_get content ''createdAt'' (PStr [])"
  define e2 where "e2 =
             (if truthy created_at then
                (case parse_created L created_at of
                   None \<Rightarrow> e1
                 | Some created_dt \<Rightarrow>
                     e1[5 := max 0 (1 - hours_old now created_dt / 168),
                        6 := real (dt_hour created_dt) / 24,
                        7 := real (dt_weekday created_dt) / 7])
              else e1)"
  define content_type where "content_type = py_get content ''mediaType'' (PStr ''text'')"
  define e3 where "e3 =
             (if content_type = PStr ''video'' then e2[10 := 1, 11 := 0, 12 := 0, 13 := 0, 14 := 0]
              else if content_type = PStr ''image'' then e2[10 := 0, 11 := 1, 12 := 0, 13 := 0, 14 := 0]
              else e2[10 := 0, 11 := 0, 12 := 1, 13 := 0, 14 := 0])"
  define content_id where "content_id = py_or (py_get content ''postId'' PNone)
                          (py_or (py_get content ''videoId'' PNone) (PStr []))"
  obtain s where s: "content_id = PStr s"
    using idok unfolding id_ok_def content_id_def [symmetric] by (cases content_id) simp_all
  define fin where "fin = (if s \<noteq> [] then hash_fill (md5_int L s) e3 else e3)"
  have s': "py_or (py_get content ''postId'' PNone)
               (py_or (py_get content ''videoId'' PNone) (PStr [])) = PStr s"
    using s by (simp only: content_id_def)
  have m: "max views 1 \<noteq> 0" by simp
  have q: "py_truediv likes 1000 = Inr (real_of_int likes / 1000)"
      "py_truediv views 10000 = Inr (real_of_int views / 10000)"
      "py_truediv comments 100 = Inr (real_of_int comments / 100)"
      "py_truediv shares 50 = Inr (real_of_int shares / 50)"
      "py_truediv (likes + comments * 2 + shares * 3) (max views 1)
         = Inr (real_of_int (likes + comments * 2 + shares * 3) / real_of_int (max views 1))"
    using py_truediv_ok [OF f(1)] py_truediv_ok [OF f(2)] py_truediv_ok [OF f(3)]
      py_truediv_ok [OF f(4)] py_truediv_ok [OF f(5) m]
    by simp_all
  have run: "create_content_embedding L now content = Inr fin"
    unfolding create_content_embedding_def g rbind_def fin_def e3_def e2_def e1_def
      created_at_def content_type_def
    by (simp add: Let_def s' q split: option.split)
  have l1: "length e1 = EMBEDDING_DIM" by (simp add: e1_def)
  have l2: "length e2 = EMBEDDING_DIM" by (simp add: e2_def l1 split: option.splits)
  have l3: "length e3 = EMBEDDING_DIM" by (simp add: e3_def l2)
  have lf: "length fin = EMBEDDING_DIM" by (simp add: fin_def l3 hash_fill_length)
  have n1: "e1 ! i = 0" if "5 \<le> i" "i < EMBEDDING_DIM" for i
    using that by (simp add: e1_def)
  have n2: "e2 ! i = e1 ! i" if "i \<noteq> 5" "i \<noteq> 6" "i \<noteq> 7" for i
    using that by (simp add: e2_def split: option.splits)
  have n3: "e3 ! i = e2 ! i" if "i < 10 \<or> 15 \<le> i" for i
    using that by (auto simp: e3_def)
  have nf: "fin ! i = e3 ! i" if "i < 30" for i
    using that by (simp add: fin_def hash_fill_nth)
  have low: "fin ! i = e1 ! i" if "i < 5" for i
    using that by (simp add: nf n3 n2)
  have t567: "case record_created L content of
              None \<Rightarrow> e2 ! 5 = 0 \<and> e2 ! 6 = 0 \<and> e2 ! 7 = 0
            | Some d \<Rightarrow> e2 ! 5 = max 0 (1 - hours_old now d / 168) \<and>
                        e2 ! 6 = real (dt_hour d) / 24 \<and> e2 ! 7 = real (dt_weekday d) / 7"
    using n1 [of 5] n1 [of 6] n1 [of 7]
    by (simp add: record_created_def created_at_def [symmetric] e2_def l1 EMBEDDING_DIM_def
          split: option.splits)
  have media: "e3 ! i = 0 \<or> e3 ! i = 1" if "10 \<le> i" "i < 15" for i
  proof -
    from that have "i = 10 \<or> i = 11 \<or> i = 12 \<or> i = 13 \<or> i = 14" by linarith
    then show ?thesis using l2 by (auto simp: e3_def EMBEDDING_DIM_def)
  qed
  have tail: "0 \<le> fin ! i \<and> fin ! i \<le> 1" if "30 \<le> i" "i < EMBEDDING_DIM" for i
  proof (cases "s \<noteq> []")
    case True
    then have "fin ! i = real ((md5_int L s div 2 ^ (i - 30)) mod 256) / 255"
      using that by (simp add: fin_def hash_fill_nth l3)
    then show ?thesis using byte_feature_range by simp
  next
    case False
    then have "fin ! i = e1 ! i" using that by (simp add: fin_def n3 n2)
    then show ?thesis using n1 [of i] that by simp
  qed
  have "fin ! 0 = min (real_of_int likes / 1000) 1"
       "fin ! 1 = min (real_of_int views / 10000) 1"
       "fin ! 2 = min (real_of_int comments / 100) 1"
       "fin ! 3 = min (real_of_int shares / 50) 1"
       "fin ! 4 = real_of_int (likes + comments * 2 + shares * 3) / real_of_int (max views 1)"
    by (simp_all add: low e1_def EMBEDDING_DIM_def)
  moreover have "case record_created L content of
              None \<Rightarrow> fin ! 5 = 0 \<and> fin ! 6 = 0 \<and> fin ! 7 = 0
            | Some d \<Rightarrow> fin ! 5 = max 0 (1 - hours_old now d / 168) \<and>
                        fin ! 6 = real (dt_hour d) / 24 \<and> fin ! 7 = real (dt_weekday d) / 7"
    using t567 by (simp add: nf n3 split: option.splits)
  moreover have "fin ! 8 = 0 \<and> fin ! 9 = 0"
    using n1 [of 8] n1 [of 9] by (simp add: nf n3 n2 EMBEDDING_DIM_def)
  moreover have "\<forall>i. 10 \<le> i \<and> i < 15 \<longrightarrow> fin ! i = 0 \<or> fin ! i = 1"
    using media by (simp add: nf)
  moreover have "\<forall>i. 15 \<le> i \<and> i < 30 \<longrightarrow> fin ! i = 0"
    using n1 by (simp add: nf n3 n2 EMBEDDING_DIM_def)
  ultimately show ?thesis using run lf tail by blast
qed

lemma id_not_ok:
  assumes "\<not> id_ok content"
  shows "truthy (py_or (py_get content ''postId'' PNone)
                  (py_or (py_get content ''videoId'' PNone) (PStr []))) \<and>
         (\<forall>s. py_or (py_get content ''postId'' PNone)
                  (py_or (py_get content ''videoId'' PNone) (PStr [])) \<noteq> PStr s)"
  using assms by (auto simp: id_ok_def py_or_def split: pyval.splits if_splits)

lemma create_content_embedding_raises:
  assumes "\<not> (features_fit content \<and> id_ok content)"
  shows "\<exists>err. create_content_embedding L now content = Inl err"
proof (cases "features_fit content")
  case False
  then show ?thesis
    by (auto simp: create_content_embedding_def rbind_def features_fit_def py_truediv_def
          split: sum.splits)
next
  case True
  then have "\<not> id_ok content" using assms by simp
  then have "truthy (py_or (py_get content ''postId'' PNone)
                  (py_or (py_get content ''videoId'' PNone) (PStr [])))"
    and "\<forall>s. py_or (py_get content ''postId'' PNone)
                  (py_or (py_get content ''videoId'' PNone) (PStr [])) \<noteq> PStr s"
    using id_not_ok by blast+
  then show ?thesis
    by (auto simp: create_content_embedding_def rbind_def Let_def split: sum.splits pyval.splits)
qed

lemma parsed_ranges:
  assumes "parser_ok L" "record_created L content = Some d"
  shows "dt_hour d < 24 \<and> dt_weekday d < 7"
proof -
  obtain s where "fromisoformat L s = Some d"
    using assms(2)
    by (auto simp: record_created_def parse_created_def Let_def split: if_splits pyval.splits)
  then show ?thesis using assms(1) unfolding parser_ok_def by blast
qed

section \<open>C6: the content features\<close>

text \<open>
  C6, as amended. \<open>create_content_embedding\<close> returns a vector exactly for the records
  whose four counter expressions convert with \<open>int\<close>, whose five quotients stay below
  the float bound and whose id is absent, falsy or a string (a record missing every
  optional field is one); on every other record it raises. The vector has 64 features:
  indices 0 to 3 are the counters over their divisors capped at 1, index 4 is the
  uncapped engagement rate \<open>(likes + 2 comments + 3 shares) / max(views, 1)\<close>; indices 0
  to 3 are at most 1 and, for non-negative counters, indices 0 to 4 are non-negative.
  Indices 5 to 7 are 0 without a parseable timestamp and otherwise
  \<open>max(0, 1 - hoursOld / 168)\<close>, \<open>hour / 24\<close> and \<open>weekday / 7\<close>: index 5 is never
  negative and is at most 1 unless the timestamp lies in the future, indices 6 and 7
  lie in \<open>[0, 1)\<close> for a parser that returns hours below 24 and weekdays below 7.
  Indices 8 and 9 are 0, 10 to 14 are 0 or 1, 15 to 29 are 0, 30 to 63 lie in \<open>[0, 1]\<close>.
\<close>

theorem content_embedding_ranges:
  assumes "parser_ok L"
  shows "(features_fit content \<and> id_ok content \<longrightarrow>
          (\<exists>e likes views comments shares.
             get_likes content = Inr likes \<and> get_views content = Inr views \<and>
             get_comments content = Inr comments \<and> get_shares content = Inr shares \<and>
             create_content_embedding L now content = Inr e \<and> length e = EMBEDDING_DIM \<and>
             e ! 0 = min (real_of_int likes / 1000) 1 \<and>
             e ! 1 = min (real_of_int views / 10000) 1 \<and>
             e ! 2 = min (real_of_int comments / 100) 1 \<and>
             e ! 3 = min (real_of_int shares / 50) 1 \<and>
             e ! 4 = real_of_int (likes + comments * 2 + shares * 3) / real_of_int (max views 1) \<and>
             (\<forall>i < 4. e ! i \<le> 1) \<and>
             (0 \<le> likes \<and> 0 \<le> views \<and> 0 \<le> comments \<and> 0 \<le> shares
                \<longrightarrow> (\<forall>i < 5. 0 \<le> e ! i)) \<and>
             (case record_created L content of
                None \<Rightarrow> e ! 5 = 0 \<and> e ! 6 = 0 \<and> e ! 7 = 0
              | Some d \<Rightarrow> e ! 5 = max 0 (1 - hours_old now d / 168) \<and>
                          e ! 6 = real (dt_hour d) / 24 \<and> e ! 7 = real (dt_weekday d) / 7) \<and>
             0 \<le> e ! 5 \<and>
             ((\<forall>d. record_created L content = Some d \<longrightarrow> epoch_seconds d \<le> now) \<longrightarrow> e ! 5 \<le> 1) \<and>
             0 \<le> e ! 6 \<and> e ! 6 < 1 \<and> 0 \<le> e ! 7 \<and> e ! 7 < 1 \<and>
             e ! 8 = 0 \<and> e ! 9 = 0 \<and>
             (\<forall>i. 10 \<le> i \<and> i < 15 \<longrightarrow> e ! i = 0 \<or> e ! i = 1) \<and>
             (\<forall>i. 15 \<le> i \<and> i < 30 \<longrightarrow> e ! i = 0) \<and>
             (\<forall>i. 30 \<le> i \<and> i < EMBEDDING_DIM \<longrightarrow> 0 \<le> e ! i \<and> e ! i \<le> 1))) \<and>
         (\<not> (features_fit content \<and> id_ok content) \<longrightarrow>
          (\<exists>err. create_content_embedding L now content = Inl err))"
proof (intro conjI impI)
  assume "\<not> (features_fit content \<and> id_ok content)"
  then show "\<exists>err. create_content_embedding L now content = Inl err"
    by (rule create_content_embedding_raises)
next
  assume ok: "features_fit content \<and> id_ok content"
  then have fit: "features_fit content" and idok: "id_ok content" by simp_all
  obtain likes views comments shares where
    g: "get_likes content = Inr likes" "get_views content = Inr views"
       "get_comments content = Inr comments" "get_shares content = Inr shares"
    and f: "float_ok likes 1000" "float_ok views 10000" "float_ok comments 100"
      "float_ok shares 50" "float_ok (likes + comments * 2 + shares * 3) (max views 1)"
    using features_fit_get [OF fit] by blast
  obtain e where e: "create_content_embedding L now content = Inr e" "length e = EMBEDDING_DIM"
      "e ! 0 = min (real_of_int likes / 1000) 1"
      "e ! 1 = min (real_of_int views / 10000) 1"
      "e ! 2 = min (real_of_int comments / 100) 1"
      "e ! 3 = min (real_of_int shares / 50) 1"
      "e ! 4 = real_of_int (likes + comments * 2 + shares * 3) / real_of_int (max views 1)"
      "case record_created L content of
          None \<Rightarrow> e ! 5 = 0 \<and> e ! 6 = 0 \<and> e ! 7 = 0
        | Some d \<Rightarrow> e ! 5 = max 0 (1 - hours_old now d / 168) \<and>
                    e ! 6 = real (dt_hour d) / 24 \<and> e ! 7 = real (dt_weekday d) / 7"
      "e ! 8 = 0 \<and> e ! 9 = 0"
      "\<forall>i. 10 \<le> i \<and> i < 15 \<longrightarrow> e ! i = 0 \<or> e ! i = 1"
      "\<forall>i. 15 \<le> i \<and> i < 30 \<longrightarrow> e ! i = 0"
      "\<forall>i. 30 \<le> i \<and> i < EMBEDDING_DIM \<longrightarrow> 0 \<le> e ! i \<and> e ! i \<le> 1"
    using create_content_embedding_features [OF g f idok, of L now] by blast
  have four: "i = 0 \<or> i = 1 \<or> i = 2 \<or> i = 3" if "i < 4" for i :: nat
    using that by linarith
  have five: "i = 0 \<or> i = 1 \<or> i = 2 \<or> i = 3 \<or> i = 4" if "i < 5" for i :: nat
    using that by linarith
  have upper: "\<forall>i < 4. e ! i \<le> 1"
  proof (intro allI impI)
    fix i :: nat assume "i < 4"
    then consider "i = 0" | "i = 1" | "i = 2" | "i = 3" using four by blast
    then show "e ! i \<le> 1"
      using e(3-6) by cases simp_all
  qed
  have lower: "\<forall>i < 5. 0 \<le> e ! i"
    if "0 \<le> likes \<and> 0 \<le> views \<and> 0 \<le> comments \<and> 0 \<le> shares"
  proof (intro allI impI)
    fix i :: nat assume "i < 5"
    then consider "i = 0" | "i = 1" | "i = 2" | "i = 3" | "i = 4" using five by blast
    then show "0 \<le> e ! i"
      using that e(3-7) by cases simp_all
  qed
  have time: "0 \<le> e ! 5 \<and> 0 \<le> e ! 6 \<and> e ! 6 < 1 \<and> 0 \<le> e ! 7 \<and> e ! 7 < 1"
  proof (cases "record_created L content")
    case None
    then show ?thesis using e(8) by simp
  next
    case (Some d)
    then have "dt_hour d < 24 \<and> dt_weekday d < 7"
      using assms by (intro parsed_ranges)
    then show ?thesis using e(8) Some by simp
  qed
  have past: "e ! 5 \<le> 1"
    if "\<forall>d. record_created L content = Some d \<longrightarrow> epoch_seconds d \<le> now"
  proof (cases "record_created L content")
    case None
    then show ?thesis using e(8) by simp
  next
    case (Some d)
    then have "epoch_seconds d \<le> now" using that by simp
    then have "0 \<le> hours_old now d" by (simp add: hours_old_def)
    then show ?thesis using e(8) Some by simp
  qed
  show "\<exists>e likes views comments shares.
             get_likes content = Inr likes \<and> get_views content = Inr views \<and>
             get_comments content = Inr comments \<and> get_shares content = Inr shares \<and>
             create_content_embedding L now content = Inr e \<and> length e = EMBEDDING_DIM \<and>
             e ! 0 = min (real_of_int likes / 1000) 1 \<and>
             e ! 1 = min (real_of_int views / 10000) 1 \<and>
             e ! 2 = min (real_of_int comments / 100) 1 \<and>
             e ! 3 = min (real_of_int shares / 50) 1 \<and>
             e ! 4 = real_of_int (likes + comments * 2 + shares * 3) / real_of_int (max views 1) \<and>
             (\<forall>i < 4. e ! i \<le> 1) \<and>
             (0 \<le> likes \<and> 0 \<le> views \<and> 0 \<le> comments \<and> 0 \<le> shares
                \<longrightarrow> (\<forall>i < 5. 0 \<le> e ! i)) \<and>
             (case record_created L content of
                None \<Rightarrow> e ! 5 = 0 \<and> e ! 6 = 0 \<and> e ! 7 = 0
              | Some d \<Rightarrow> e ! 5 = max 0 (1 - hours_old now d / 168) \<and>
                          e ! 6 = real (dt_hour d) / 24 \<and> e ! 7 = real (dt_weekday d) / 7) \<and>
             0 \<le> e ! 5 \<and>
             ((\<forall>d. record_created L content = Some d \<longrightarrow> epoch_seconds d \<le> now) \<longrightarrow> e ! 5 \<le> 1) \<and>
             0 \<le> e ! 6 \<and> e ! 6 < 1 \<and> 0 \<le> e ! 7 \<and> e ! 7 < 1 \<and>
             e ! 8 = 0 \<and> e ! 9 = 0 \<and>
             (\<forall>i. 10 \<le> i \<and> i < 15 \<longrightarrow> e ! i = 0 \<or> e ! i = 1) \<and>
             (\<forall>i. 15 \<le> i \<and> i < 30 \<longrightarrow> e ! i = 0) \<and>
             (\<forall>i. 30 \<le> i \<and> i < EMBEDDING_DIM \<longrightarrow> 0 \<le> e ! i \<and> e ! i \<le> 1)"
    using g e upper lower time past by blast
qed

lemma parser_ok_example: "parser_ok example_lib"
  by (simp add: parser_ok_def example_lib_def)

lemma float_ok_small:
  assumes "\<bar>a\<bar> \<le> 2 ^ 1000" "b \<noteq> 0"
  shows "float_ok a b"
proof -
  have "1 \<le> \<bar>real_of_int b\<bar>" using assms(2) by linarith
  then have "\<bar>real_of_int a / real_of_int b\<bar> \<le> \<bar>real_of_int a\<bar>"
    by (simp add: divide_le_eq_1 mult_le_cancel_left1 field_simps)
  also have "\<bar>real_of_int a\<bar> \<le> 2 ^ 1000"
    using assms(1) by (metis of_int_abs of_int_le_iff of_int_numeral of_int_power)
  also have "(2 :: real) ^ 1000 < 2 ^ 1024 - 2 ^ 970" by simp
  finally show ?thesis by (simp add: float_ok_def)
qed

theorem content_embedding_ranges_witness:
  "parser_ok example_lib \<and>
   features_fit [''likes'' \<mapsto> PInt 10, ''createdAt'' \<mapsto> PStr ''2024-01-09T08:00:00Z''] \<and>
   id_ok [''likes'' \<mapsto> PInt 10, ''createdAt'' \<mapsto> PStr ''2024-01-09T08:00:00Z''] \<and>
   (\<exists>e. create_content_embedding example_lib 1704787200
           [''likes'' \<mapsto> PInt 10, ''createdAt'' \<mapsto> PStr ''2024-01-09T08:00:00Z''] = Inr e \<and>
        length e = EMBEDDING_DIM \<and> e ! 4 = 10 \<and> e ! 5 = 1 \<and> e ! 6 = 1 / 3 \<and> e ! 7 = 1 / 7 \<and>
        e ! 8 = 0 \<and> e ! 9 = 0) \<and>
   features_fit Map.empty \<and> id_ok Map.empty \<and>
   (\<exists>e. create_content_embedding example_lib 0 Map.empty = Inr e \<and> length e = EMBEDDING_DIM \<and>
        e ! 4 = 0 \<and> e ! 5 = 0 \<and> e ! 6 = 0 \<and> e ! 7 = 0)"
proof -
  let ?c = "[''likes'' \<mapsto> PInt 10, ''createdAt'' \<mapsto> PStr ''2024-01-09T08:00:00Z'']"
  have g: "get_likes ?c = Inr 10" "get_views ?c = Inr 1" "get_comments ?c = Inr 0"
      "get_shares ?c = Inr 0"
    by (simp_all add: get_likes_def get_views_def get_comments_def get_shares_def
          py_get_def py_or_def)
  have fit: "features_fit ?c"
    unfolding features_fit_def g by (simp add: float_ok_small)
  have idok: "id_ok ?c"
    by (simp add: id_ok_def py_get_def py_or_def)
  have cr: "record_created example_lib ?c
      = Some \<lparr>epoch_seconds = 1704787200, dt_hour = 8, dt_weekday = 1\<rparr>"
    by (simp add: record_created_def py_get_def parse_created_def replace_Z_def example_lib_def)
  have g0: "get_likes Map.empty = Inr 0" "get_views Map.empty = Inr 1"
      "get_comments Map.empty = Inr 0" "get_shares Map.empty = Inr 0"
    by (simp_all add: get_likes_def get_views_def get_comments_def get_shares_def
          py_get_def py_or_def)
  have fit0: "features_fit Map.empty"
    unfolding features_fit_def g0 by (simp add: float_ok_small)
  have idok0: "id_ok Map.empty"
    by (simp add: id_ok_def py_get_def py_or_def)
  have cr0: "record_created example_lib Map.empty = None"
    by (simp add: record_created_def py_get_def)
  have one: "\<exists>e. create_content_embedding example_lib 1704787200 ?c = Inr e \<and>
        length e = EMBEDDING_DIM \<and> e ! 4 = 10 \<and> e ! 5 = 1 \<and> e ! 6 = 1 / 3 \<and> e ! 7 = 1 / 7 \<and>
        e ! 8 = 0 \<and> e ! 9 = 0"
    using content_embedding_ranges [OF parser_ok_example, of ?c 1704787200] fit idok
    unfolding g cr by (auto simp: hours_old_def)
  have two: "\<exists>e. create_content_embedding example_lib 0 Map.empty = Inr e \<and>
        length e = EMBEDDING_DIM \<and> e ! 4 = 0 \<and> e ! 5 = 0 \<and> e ! 6 = 0 \<and> e ! 7 = 0"
    using content_embedding_ranges [OF parser_ok_example, of Map.empty 0] fit0 idok0
    unfolding g0 cr0 by auto
  show ?thesis
    using parser_ok_example fit idok one fit0 idok0 two by blast
qed

text \<open>
  C6 as stated fails four times. Index 4 is not clamped: a record with 10 likes and no
  view counter has engagement rate 10. A counter that is not a number raises:
  \<open>int('many')\<close> is a \<open>ValueError\<close> that nothing catches. A counter beyond the float
  range raises: \<open>10 ** 400 / 1000\<close> is an \<open>OverflowError\<close>. And a timestamp one week in the
  future puts 2 at index 5.
\<close>

theorem engagement_rate_unclamped:
  "(case create_content_embedding example_lib 0 [''likes'' \<mapsto> PInt 10] of
      Inr e \<Rightarrow> e ! 4 | Inl err \<Rightarrow> 0) = 10 \<and>
   create_content_embedding example_lib 0 [''likes'' \<mapsto> PStr ''many''] = Inl ValueError \<and>
   create_content_embedding example_lib 0 [''likes'' \<mapsto> PInt (10 ^ 400)] = Inl OverflowError \<and>
   (case create_content_embedding example_lib 1703462400
           [''createdAt'' \<mapsto> PStr ''2024-01-01T00:00:00Z''] of
      Inr e \<Rightarrow> e ! 5 | Inl err \<Rightarrow> 0) = 2"
proof (intro conjI)
  show "(case create_content_embedding example_lib 0 [''likes'' \<mapsto> PInt 10] of
      Inr e \<Rightarrow> e ! 4 | Inl err \<Rightarrow> 0) = 10"
    by (simp add: create_content_embedding_def rbind_def get_likes_def get_views_def
        get_comments_def get_shares_def py_get_def py_or_def Let_def parse_created_def
        EMBEDDING_DIM_def py_truediv_def float_ok_def)
  show "create_content_embedding example_lib 0 [''likes'' \<mapsto> PStr ''many''] = Inl ValueError"
    by (simp add: create_content_embedding_def rbind_def get_likes_def py_get_def py_or_def
        int_of_string_def strip_def is_space_def nat_of_digits_def is_digit_def MAX_STR_DIGITS_def)
  show "create_content_embedding example_lib 0 [''likes'' \<mapsto> PInt (10 ^ 400)] = Inl OverflowError"
    by (simp add: create_content_embedding_def rbind_def get_likes_def get_views_def
        get_comments_def get_shares_def py_get_def py_or_def py_truediv_def float_ok_def)
  show "(case create_content_embedding example_lib 1703462400
           [''createdAt'' \<mapsto> PStr ''2024-01-01T00:00:00Z''] of
      Inr e \<Rightarrow> e ! 5 | Inl err \<Rightarrow> 0) = 2"
    by (simp add: create_content_embedding_def rbind_def get_likes_def get_views_def
        get_comments_def get_shares_def py_get_def py_or_def Let_def parse_created_def
        EMBEDDING_DIM_def py_truediv_def float_ok_def replace_Z_def example_lib_def hours_old_def)
qed

section \<open>Facts about embeddings at rest and scoring\<close>


lemma emb_ok_rng [simp]: "emb_ok (st\<lparr>rng := g\<rparr>) = emb_ok st"
  by (simp add: emb_ok_def)



lemma emb_ok_save_user:
  assumes "emb_ok st" "length e = EMBEDDING_DIM"
  shows "emb_ok (save_user_embedding st user_id e)"
  using assms by (auto simp: emb_ok_def save_user_embedding_def)








lemma emb_ok_cache_userD:
  assumes "emb_ok st" "cache_user_emb st k = Some (e, t)"
  shows "length e = EMBEDDING_DIM"
  using assms unfolding emb_ok_def by blast

lemma emb_ok_db_userD:
  assumes "emb_ok st" "db_user_embeddings st k = Some e"
  shows "length e = EMBEDDING_DIM"
  using assms unfolding emb_ok_def by blast







section \<open>C2: the score of one candidate\<close>






section \<open>Facts about the two example records\<close>
















section \<open>C9: a newer and an older candidate\<close>




end
